theory Spec2Isabelle
  imports Complex_Main
begin

section \<open>The blade design script\<close>

text \<open>
  The development follows \<^verbatim>\<open>blade_design_tool.py\<close>: the read of the two tables into the
  baseline geometry matrix, with the twist resampled onto the radii of the sections; the
  non-dimensional radius; the six blade modifiers that write into the working copy of
  the matrix; the twist resampled back; the copies of the \<^verbatim>\<open>.htc\<close> and \<^verbatim>\<open>ae.dat\<close> files
  and their rewriting. The plots and the calls of the solver are left out.

  Python floats are modelled as real numbers. The model therefore covers the runs on
  which every float stays finite and leaves rounding aside; the one place where the
  script itself can produce a non-finite value from finite input, the division by a
  zero maximum radius, is a result of its own (\<open>NonFinite\<close>).
\<close>

subsection \<open>Exceptions\<close>

text \<open>
  \<open>IndexError\<close>, \<open>ValueError\<close> and \<open>OSError\<close> are the Python exceptions the modelled
  statements raise. \<open>NonFinite\<close> is no exception: it marks the runs the real-number model
  does not follow. The last four constructors are the error names of the specification;
  no statement of the script raises them, they are here so that a result can be compared
  with them.
\<close>

datatype py_error =
    IndexError
  | ValueError
  | OSError
  | NonFinite
  | ConfigurationError
  | MalformedInputError
  | FormatMismatchError
  | IOError

subsection \<open>The geometry matrix\<close>

text \<open>
  \<^verbatim>\<open>geo_mat\<close> and \<^verbatim>\<open>working_mat\<close> are \<open>N \<times> 4\<close> arrays: column 0 the radius, column 1 the
  twist, column 2 the chord, column 3 the relative thickness. A row is a record with one
  field per column.
\<close>

record geo_row =
  radius :: real
  twist :: real
  chord :: real
  rel_thickness :: real

type_synonym geo_mat = "geo_row list"

text \<open>
  Lines 59 and 60: \<^verbatim>\<open>R = geo_mat[:, 0][-1]\<close> raises on an empty matrix;
  \<^verbatim>\<open>radius_nd = geo_mat[:, 0] / R\<close> is the element-wise quotient.
\<close>

definition radius_nd :: "geo_mat \<Rightarrow> py_error + real list" where
  "radius_nd geo_mat =
     (if geo_mat = [] then Inl IndexError
      else let R = radius (last geo_mat)
           in if R = 0 then Inl NonFinite
              else Inr (map (\<lambda>row. radius row / R) geo_mat))"

subsection \<open>The twist resampling\<close>

text \<open>
  \<^verbatim>\<open>np.interp(x, xp, fp)\<close> is NumPy's; the definitions follow its C source. It refuses an
  empty \<open>xp\<close> and an \<open>fp\<close> of another length with \<open>ValueError\<close> and makes no test on the order
  of \<open>xp\<close>. For each \<open>x\<close> in turn it looks for an index \<open>j\<close> with \<open>xp[j] \<le> x < xp[j+1]\<close>,
  starting from the index found for the \<open>x\<close> before, and interpolates between the points
  \<open>j\<close> and \<open>j+1\<close>.

  The search answers \<open>len\<close> for a key above the last point, otherwise \<open>-1\<close> for a key below
  the first point. On up to four points it goes through them from the front. On more
  points it tries the three indices around the guess and then bisects, in a window of
  eight indices if the key lies in it.
\<close>

definition LIKELY_IN_CACHE_SIZE :: nat where "LIKELY_IN_CACHE_SIZE = 8"

function bisect :: "real \<Rightarrow> real list \<Rightarrow> nat \<Rightarrow> nat \<Rightarrow> nat" where
  "bisect key arr imin imax =
     (if imin < imax then
        (let imid = imin + (imax - imin) div 2
         in if key \<ge> arr ! imid then bisect key arr (imid + 1) imax
            else bisect key arr imin imid)
      else imin)"
  by pat_completeness auto
termination
  by (relation "measure (\<lambda>(key, arr, imin, imax). imax - imin)") auto

declare bisect.simps [simp del]

definition binary_search_with_guess :: "real \<Rightarrow> real list \<Rightarrow> int \<Rightarrow> int" where
  "binary_search_with_guess key arr guess =
     (let len = length arr
      in if key > arr ! (len - 1) then int len
         else if key < arr ! 0 then - 1
         else if len \<le> 4 then int (length (takeWhile (\<lambda>a. key \<ge> a) (tl arr)))
         else
           (let guess = (if guess > int len - 3 then int len - 3 else guess);
                guess = (if guess < 1 then 1 else guess);
                g = nat guess
            in if key < arr ! g then
                 (if key < arr ! (g - 1) then
                    (let imax = g - 1;
                         imin = (if g > LIKELY_IN_CACHE_SIZE \<and>
                                    key \<ge> arr ! (g - LIKELY_IN_CACHE_SIZE)
                                 then g - LIKELY_IN_CACHE_SIZE else 0)
                     in int (bisect key arr imin imax) - 1)
                  else int g - 1)
               else if key < arr ! (g + 1) then int g
               else if key < arr ! (g + 2) then int g + 1
               else
                 (let imin = g + 2;
                      imax = (if g + LIKELY_IN_CACHE_SIZE + 1 < len \<and>
                                 key < arr ! (g + LIKELY_IN_CACHE_SIZE)
                              then g + LIKELY_IN_CACHE_SIZE else len)
                  in int (bisect key arr imin imax) - 1)))"

text \<open>The value for the index found: \<open>fp[0]\<close> to the left, \<open>fp[-1]\<close> to the right.\<close>

definition interp_value :: "real list \<Rightarrow> real list \<Rightarrow> int \<Rightarrow> real \<Rightarrow> real" where
  "interp_value xp fp j x =
     (if j = - 1 then fp ! 0
      else if j = int (length xp) then fp ! (length xp - 1)
      else if j = int (length xp) - 1 then fp ! nat j
      else if xp ! nat j = x then fp ! nat j
      else (let slope = (fp ! (nat j + 1) - fp ! nat j) / (xp ! (nat j + 1) - xp ! nat j)
            in slope * (x - xp ! nat j) + fp ! nat j))"

fun interp_loop :: "real list \<Rightarrow> real list \<Rightarrow> int \<Rightarrow> real list \<Rightarrow> real list" where
  "interp_loop xp fp j [] = []"
| "interp_loop xp fp j (x # xs) =
     (let j = binary_search_with_guess x xp j
      in interp_value xp fp j x # interp_loop xp fp j xs)"

text \<open>A single sample point is a case of its own in NumPy, without a search.\<close>

definition np_interp :: "real list \<Rightarrow> real list \<Rightarrow> real list \<Rightarrow> py_error + real list" where
  "np_interp x xp fp =
     (if xp = [] then Inl ValueError
      else if length fp \<noteq> length xp then Inl ValueError
      else if length xp = 1 then
        Inr (map (\<lambda>x_val. if x_val < xp ! 0 then fp ! 0
                           else if x_val > xp ! 0 then fp ! (length xp - 1)
                           else fp ! 0) x)
      else Inr (interp_loop xp fp 0 x))"

text \<open>
  Lines 32 to 56. \<^verbatim>\<open>ae_data\<close> is what \<^verbatim>\<open>np.loadtxt\<close> returned, a row being radius, chord and
  relative thickness; \<^verbatim>\<open>twist\<close> is what \<^verbatim>\<open>np.genfromtxt\<close> returned, a row being the position
  and the twist. The parsing of the text into numbers is NumPy's and is not modelled.
  \<^verbatim>\<open>np.loadtxt\<close> returns a one-dimensional array for a single row, and \<^verbatim>\<open>np.genfromtxt\<close> for
  a single row or none; the column slices of lines 33 and 49 then raise \<open>IndexError\<close>.
  Without any row \<^verbatim>\<open>np.loadtxt\<close> returns an array of no rows and three columns, and the
  matrix has no rows.
\<close>

definition read_geo_mat ::
  "(real \<times> real \<times> real) list \<Rightarrow> (real \<times> real) list \<Rightarrow> py_error + geo_mat" where
  "read_geo_mat ae_data twist_table =
     (if length ae_data = 1 then Inl IndexError
      else if length twist_table < 2 then Inl IndexError
      else (case np_interp (map fst ae_data) (map fst twist_table) (map snd twist_table) of
              Inl e \<Rightarrow> Inl e
            | Inr tw \<Rightarrow>
                Inr (map (\<lambda>((r, c, t), th).
                            \<lparr>radius = r, twist = th, chord = c, rel_thickness = t\<rparr>)
                       (zip ae_data tw))))"

text \<open>Line 164: the twists of the working matrix at the positions of the \<^verbatim>\<open>.htc\<close> file.\<close>

definition htc_twist :: "real list \<Rightarrow> geo_mat \<Rightarrow> py_error + real list" where
  "htc_twist twist_radii working_mat =
     np_interp twist_radii (map radius working_mat) (map twist working_mat)"

subsection \<open>The blade modifiers\<close>

text \<open>
  Every modifier block of the script has the same shape: a multiplier array computed from
  \<^verbatim>\<open>radius_nd\<close>, then a loop \<^verbatim>\<open>for radius in radius_nd\<close> that carries the index \<open>i\<close> and
  writes one cell of \<^verbatim>\<open>working_mat\<close> when the test on \<open>radius\<close> holds. The loops are
  recursions over \<^verbatim>\<open>radius_nd\<close>; a read or write beyond an array raises \<open>IndexError\<close>.
  The amounts and thresholds, constants in the script, are arguments here.
\<close>

fun root_linear_chord_loop ::
  "real \<Rightarrow> real \<Rightarrow> real list \<Rightarrow> real list \<Rightarrow> nat \<Rightarrow> geo_mat \<Rightarrow> py_error + geo_mat" where
  "root_linear_chord_loop chord_addition changes_until linear_multiplier [] i working_mat =
     Inr working_mat"
| "root_linear_chord_loop chord_addition changes_until linear_multiplier (r # rest) i working_mat =
     (if r \<le> changes_until then
        (if i < length working_mat \<and> i < length linear_multiplier then
           root_linear_chord_loop chord_addition changes_until linear_multiplier rest (Suc i)
             (working_mat[i := (working_mat ! i)
                \<lparr>chord := chord (working_mat ! i) - chord_addition * linear_multiplier ! i\<rparr>])
         else Inl IndexError)
      else root_linear_chord_loop chord_addition changes_until linear_multiplier rest (Suc i)
             working_mat)"

definition root_linear_chord_block ::
  "real \<Rightarrow> real \<Rightarrow> real list \<Rightarrow> geo_mat \<Rightarrow> py_error + geo_mat" where
  "root_linear_chord_block chord_addition changes_until rnd working_mat =
     (let linear_multiplier = map (\<lambda>r. r - 1) rnd
      in root_linear_chord_loop chord_addition changes_until linear_multiplier rnd 0 working_mat)"

fun tip_cos_chord_loop ::
  "real \<Rightarrow> real \<Rightarrow> real list \<Rightarrow> real list \<Rightarrow> nat \<Rightarrow> geo_mat \<Rightarrow> py_error + geo_mat" where
  "tip_cos_chord_loop chord_addition changes_from ncos_multiplier [] i working_mat =
     Inr working_mat"
| "tip_cos_chord_loop chord_addition changes_from ncos_multiplier (r # rest) i working_mat =
     (if r \<ge> changes_from then
        (if i < length working_mat \<and> i < length ncos_multiplier then
           tip_cos_chord_loop chord_addition changes_from ncos_multiplier rest (Suc i)
             (working_mat[i := (working_mat ! i)
                \<lparr>chord := chord (working_mat ! i) + chord_addition * ncos_multiplier ! i\<rparr>])
         else Inl IndexError)
      else tip_cos_chord_loop chord_addition changes_from ncos_multiplier rest (Suc i)
             working_mat)"

definition tip_cos_chord_block ::
  "real \<Rightarrow> real \<Rightarrow> real list \<Rightarrow> geo_mat \<Rightarrow> py_error + geo_mat" where
  "tip_cos_chord_block chord_addition changes_from rnd working_mat =
     (let ncos_multiplier = map (\<lambda>r. - cos (r * pi)) rnd
      in tip_cos_chord_loop chord_addition changes_from ncos_multiplier rnd 0 working_mat)"

text \<open>
  Line 110 is one array statement,
  \<^verbatim>\<open>working_mat[:, 2] = working_mat[:, 2] + chord_addition * ncos_multiplier\<close>;
  NumPy refuses operands of different lengths with \<open>ValueError\<close>.
\<close>

definition cos_chord_block :: "real \<Rightarrow> real list \<Rightarrow> geo_mat \<Rightarrow> py_error + geo_mat" where
  "cos_chord_block chord_addition rnd working_mat =
     (let ncos_multiplier = map (\<lambda>r. - cos (r * pi)) rnd
      in if length ncos_multiplier = length working_mat then
           Inr (map (\<lambda>(row, m). row\<lparr>chord := chord row + chord_addition * m\<rparr>)
                  (zip working_mat ncos_multiplier))
         else Inl ValueError)"

fun twist_the_root_loop ::
  "real \<Rightarrow> real \<Rightarrow> real list \<Rightarrow> real list \<Rightarrow> nat \<Rightarrow> geo_mat \<Rightarrow> py_error + geo_mat" where
  "twist_the_root_loop twist_addition changes_until linear_multiplier [] i working_mat =
     Inr working_mat"
| "twist_the_root_loop twist_addition changes_until linear_multiplier (r # rest) i working_mat =
     (if r \<le> changes_until then
        (if i < length working_mat \<and> i < length linear_multiplier then
           twist_the_root_loop twist_addition changes_until linear_multiplier rest (Suc i)
             (working_mat[i := (working_mat ! i)
                \<lparr>twist := twist (working_mat ! i) + twist_addition * linear_multiplier ! i\<rparr>])
         else Inl IndexError)
      else twist_the_root_loop twist_addition changes_until linear_multiplier rest (Suc i)
             working_mat)"

definition twist_the_root_block ::
  "real \<Rightarrow> real \<Rightarrow> real list \<Rightarrow> geo_mat \<Rightarrow> py_error + geo_mat" where
  "twist_the_root_block twist_addition changes_until rnd working_mat =
     (let linear_multiplier = map (\<lambda>r. - (r - 1)) rnd
      in twist_the_root_loop twist_addition changes_until linear_multiplier rnd 0 working_mat)"

text \<open>
  In the manual twist \<^verbatim>\<open>manual_multiplier\<close> is a Python list of the user's, read at the
  section index \<open>i\<close>; the cosine array computed at line 130 is never read.
\<close>

fun supertwist_the_root_loop ::
  "real \<Rightarrow> real \<Rightarrow> real list \<Rightarrow> real list \<Rightarrow> nat \<Rightarrow> geo_mat \<Rightarrow> py_error + geo_mat" where
  "supertwist_the_root_loop twist_addition changes_until manual_multiplier [] i working_mat =
     Inr working_mat"
| "supertwist_the_root_loop twist_addition changes_until manual_multiplier (r # rest) i working_mat =
     (if r \<le> changes_until then
        (if i < length working_mat \<and> i < length manual_multiplier then
           supertwist_the_root_loop twist_addition changes_until manual_multiplier rest (Suc i)
             (working_mat[i := (working_mat ! i)
                \<lparr>twist := twist (working_mat ! i) + twist_addition * manual_multiplier ! i\<rparr>])
         else Inl IndexError)
      else supertwist_the_root_loop twist_addition changes_until manual_multiplier rest (Suc i)
             working_mat)"

definition supertwist_the_root_block ::
  "real \<Rightarrow> real \<Rightarrow> real list \<Rightarrow> real list \<Rightarrow> geo_mat \<Rightarrow> py_error + geo_mat" where
  "supertwist_the_root_block twist_addition changes_until manual_multiplier rnd working_mat =
     supertwist_the_root_loop twist_addition changes_until manual_multiplier rnd 0 working_mat"

fun make_root_cylindrical_loop ::
  "real \<Rightarrow> real list \<Rightarrow> nat \<Rightarrow> geo_mat \<Rightarrow> py_error + geo_mat" where
  "make_root_cylindrical_loop changes_until [] i working_mat = Inr working_mat"
| "make_root_cylindrical_loop changes_until (r # rest) i working_mat =
     (if r \<le> changes_until then
        (if i < length working_mat then
           make_root_cylindrical_loop changes_until rest (Suc i)
             (working_mat[i := (working_mat ! i)\<lparr>rel_thickness := 100\<rparr>])
         else Inl IndexError)
      else make_root_cylindrical_loop changes_until rest (Suc i) working_mat)"

definition make_root_cylindrical_block :: "real \<Rightarrow> real list \<Rightarrow> geo_mat \<Rightarrow> py_error + geo_mat" where
  "make_root_cylindrical_block changes_until rnd working_mat =
     make_root_cylindrical_loop changes_until rnd 0 working_mat"

subsection \<open>The switches and the order of the blocks\<close>

text \<open>
  The script reuses the names \<^verbatim>\<open>chord_addition\<close>, \<^verbatim>\<open>twist_addition\<close>, \<^verbatim>\<open>changes_until\<close> from
  block to block; the record has one field per block and name.
\<close>

record modifiers =
  root_linear_chord_addition :: bool
  root_chord_addition :: real
  root_chord_changes_until :: real
  tip_cos_chord_addition :: bool
  tip_chord_addition :: real
  tip_changes_from :: real
  cos_chord_addition :: bool
  cos_chord_amount :: real
  twist_the_root :: bool
  root_twist_addition :: real
  root_twist_changes_until :: real
  supertwist_the_root :: bool
  manual_multiplier :: "real list"
  supertwist_addition :: real
  supertwist_changes_until :: real
  make_root_cylindrical :: bool
  cylindrical_changes_until :: real

text \<open>The values written in the script.\<close>

definition script_modifiers :: modifiers where
  "script_modifiers =
     \<lparr>root_linear_chord_addition = True, root_chord_addition = - 1,
      root_chord_changes_until = 25 / 100,
      tip_cos_chord_addition = False, tip_chord_addition = - (5 / 10), tip_changes_from = 6 / 10,
      cos_chord_addition = False, cos_chord_amount = 1,
      twist_the_root = False, root_twist_addition = - 13, root_twist_changes_until = 25 / 100,
      supertwist_the_root = True,
      manual_multiplier = [1, 80 / 100, 81 / 100, 79 / 100, 55 / 100, 61 / 100, 50 / 100,
        45 / 100, 39 / 100, 34 / 100, 32 / 100, 31 / 100, 30 / 100],
      supertwist_addition = - 64, supertwist_changes_until = 25 / 100,
      make_root_cylindrical = False, cylindrical_changes_until = 25 / 100\<rparr>"

text \<open>All switches off; the parameters are those of the script.\<close>

definition no_modifiers :: modifiers where
  "no_modifiers =
     script_modifiers\<lparr>root_linear_chord_addition := False, supertwist_the_root := False\<rparr>"

definition when_enabled ::
  "bool \<Rightarrow> (geo_mat \<Rightarrow> py_error + geo_mat) \<Rightarrow> py_error + geo_mat \<Rightarrow> py_error + geo_mat" where
  "when_enabled flag block res =
     (case res of Inl e \<Rightarrow> Inl e
      | Inr working_mat \<Rightarrow> if flag then block working_mat else Inr working_mat)"

text \<open>
  Lines 79 to 154, on the working matrix: the six blocks in the order of the script, each
  behind its switch. An exception in one block ends the run.
\<close>

definition block_list ::
  "modifiers \<Rightarrow> real list \<Rightarrow> (bool \<times> (geo_mat \<Rightarrow> py_error + geo_mat)) list" where
  "block_list cfg rnd =
     [(root_linear_chord_addition cfg,
         root_linear_chord_block (root_chord_addition cfg) (root_chord_changes_until cfg) rnd),
      (tip_cos_chord_addition cfg,
         tip_cos_chord_block (tip_chord_addition cfg) (tip_changes_from cfg) rnd),
      (cos_chord_addition cfg,
         cos_chord_block (cos_chord_amount cfg) rnd),
      (twist_the_root cfg,
         twist_the_root_block (root_twist_addition cfg) (root_twist_changes_until cfg) rnd),
      (supertwist_the_root cfg,
         supertwist_the_root_block (supertwist_addition cfg) (supertwist_changes_until cfg)
           (manual_multiplier cfg) rnd),
      (make_root_cylindrical cfg,
         make_root_cylindrical_block (cylindrical_changes_until cfg) rnd)]"

definition run_blocks ::
  "(bool \<times> (geo_mat \<Rightarrow> py_error + geo_mat)) list \<Rightarrow> py_error + geo_mat \<Rightarrow> py_error + geo_mat" where
  "run_blocks blocks res = foldl (\<lambda>res (flag, block). when_enabled flag block res) res blocks"

definition modifier_blocks :: "modifiers \<Rightarrow> real list \<Rightarrow> geo_mat \<Rightarrow> py_error + geo_mat" where
  "modifier_blocks cfg rnd working_mat = run_blocks (block_list cfg rnd) (Inr working_mat)"

text \<open>
  Lines 59 to 154 on values: the non-dimensional radius of the baseline, then the blocks
  on a working matrix that starts as the baseline.
\<close>

definition changed_design :: "modifiers \<Rightarrow> geo_mat \<Rightarrow> py_error + geo_mat" where
  "changed_design cfg geo_mat =
     (case radius_nd geo_mat of
        Inl e \<Rightarrow> Inl e
      | Inr rnd \<Rightarrow> modifier_blocks cfg rnd geo_mat)"

subsection \<open>The two matrices as objects\<close>

text \<open>
  \<^verbatim>\<open>geo_mat\<close> and \<^verbatim>\<open>working_mat\<close> are names of NumPy arrays, and every modifier writes
  into the array that \<^verbatim>\<open>working_mat\<close> names. To tell a write into the copy from a write
  into the baseline, the arrays live in a store, at addresses; a name is an address.
  Addresses below \<open>lim\<close> are taken.
\<close>

type_synonym addr = nat

record store =
  arrays :: "addr \<Rightarrow> geo_mat"
  lim :: addr

text \<open>Line 72, \<^verbatim>\<open>geo_mat.copy()\<close>: a new array with the contents of the old one.\<close>

definition np_copy :: "addr \<Rightarrow> store \<Rightarrow> addr \<times> store" where
  "np_copy a s = (lim s, s\<lparr>arrays := (arrays s)(lim s := arrays s a), lim := Suc (lim s)\<rparr>)"

text \<open>A block run on the array at an address: its writes land in that array.\<close>

definition in_place ::
  "(geo_mat \<Rightarrow> py_error + geo_mat) \<Rightarrow> addr \<Rightarrow> store \<Rightarrow> py_error + store" where
  "in_place block a s =
     (case block (arrays s a) of
        Inl e \<Rightarrow> Inl e
      | Inr m \<Rightarrow> Inr (s\<lparr>arrays := (arrays s)(a := m)\<rparr>))"

definition run_blocks_in_place ::
  "(bool \<times> (geo_mat \<Rightarrow> py_error + geo_mat)) list \<Rightarrow> addr \<Rightarrow> py_error + store
     \<Rightarrow> py_error + store" where
  "run_blocks_in_place blocks a res =
     foldl (\<lambda>res (flag, block).
              case res of Inl e \<Rightarrow> Inl e
              | Inr s \<Rightarrow> if flag then in_place block a s else Inr s) res blocks"

text \<open>
  Lines 59 to 154 on the store: \<^verbatim>\<open>radius_nd\<close> from the baseline, the copy, then the blocks on
  the copy. The result is the address that \<^verbatim>\<open>working_mat\<close> names and the store.
\<close>

definition changing_the_design :: "modifiers \<Rightarrow> addr \<Rightarrow> store \<Rightarrow> py_error + addr \<times> store" where
  "changing_the_design cfg geo_mat s =
     (case radius_nd (arrays s geo_mat) of
        Inl e \<Rightarrow> Inl e
      | Inr rnd \<Rightarrow>
          (case np_copy geo_mat s of
             (working_mat, s1) \<Rightarrow>
               (case run_blocks_in_place (block_list cfg rnd) working_mat (Inr s1) of
                  Inl e \<Rightarrow> Inl e
                | Inr s2 \<Rightarrow> Inr (working_mat, s2))))"

subsection \<open>Strings\<close>

text \<open>
  A Python string is a list of characters. \<open>py_strip\<close> is \<^verbatim>\<open>s.strip()\<close> on ASCII text,
  \<open>py_split\<close> is \<^verbatim>\<open>s.split(sep)\<close> for a separator of one character, \<open>py_join\<close> is
  \<^verbatim>\<open>sep.join(fields)\<close> and \<open>py_in\<close> is the substring test \<^verbatim>\<open>p in s\<close>.
\<close>

definition TAB :: char where "TAB = CHR 0x09"
definition NL :: char where "NL = CHR 0x0A"

definition py_isspace :: "char \<Rightarrow> bool" where
  "py_isspace c = (c \<in> set [CHR 0x09, CHR 0x0A, CHR 0x0B, CHR 0x0C, CHR 0x0D,
                              CHR 0x1C, CHR 0x1D, CHR 0x1E, CHR 0x1F, CHR 0x20])"

definition py_strip :: "string \<Rightarrow> string" where
  "py_strip s = rev (dropWhile py_isspace (rev (dropWhile py_isspace s)))"

fun py_split :: "char \<Rightarrow> string \<Rightarrow> string list" where
  "py_split sep [] = [[]]"
| "py_split sep (c # cs) =
     (let fields = py_split sep cs
      in if c = sep then [] # fields else (c # hd fields) # tl fields)"

fun py_join :: "string \<Rightarrow> string list \<Rightarrow> string" where
  "py_join sep [] = []"
| "py_join sep [field] = field"
| "py_join sep (field # next_field # others) = field @ sep @ py_join sep (next_field # others)"

fun py_startswith :: "string \<Rightarrow> string \<Rightarrow> bool" where
  "py_startswith [] s = True"
| "py_startswith (p # ps) [] = False"
| "py_startswith (p # ps) (c # cs) = (p = c \<and> py_startswith ps cs)"

fun py_in :: "string \<Rightarrow> string \<Rightarrow> bool" where
  "py_in p [] = (p = [])"
| "py_in p (c # cs) = (py_startswith p (c # cs) \<or> py_in p cs)"

text \<open>\<^verbatim>\<open>xs[i] = v\<close> on a Python list.\<close>

definition py_set :: "'a list \<Rightarrow> nat \<Rightarrow> 'a \<Rightarrow> py_error + 'a list" where
  "py_set xs i v = (if i < length xs then Inr (xs[i := v]) else Inl IndexError)"

text \<open>
  The two files are opened in text mode, without a \<^verbatim>\<open>newline\<close> argument. What is read has
  every line ending, \<open>CR LF\<close>, a lone \<open>CR\<close> or \<open>LF\<close>, as the one character \<open>LF\<close>; what is written
  has every \<open>LF\<close> as \<^verbatim>\<open>os.linesep\<close>, which is an argument of everything that writes.
\<close>

definition CR :: char where "CR = CHR 0x0D"

fun universal_newlines :: "string \<Rightarrow> string" where
  "universal_newlines [] = []"
| "universal_newlines [c] = (if c = CR then [NL] else [c])"
| "universal_newlines (c # c' # cs) =
     (if c = CR then
        (if c' = NL then NL # universal_newlines cs else NL # universal_newlines (c' # cs))
      else c # universal_newlines (c' # cs))"

definition text_write :: "string \<Rightarrow> string \<Rightarrow> string" where
  "text_write linesep s = concat (map (\<lambda>c. if c = NL then linesep else [c]) s)"

text \<open>
  \<^verbatim>\<open>f.readlines()\<close>, and the iteration over a file: the lines of a text, each with its
  newline, the last one with or without. \<open>text_read\<close> is this on the bytes of a file.
  \<^verbatim>\<open>f.writelines(content)\<close> writes \<open>concat content\<close>.
\<close>

fun readlines :: "string \<Rightarrow> string list" where
  "readlines [] = []"
| "readlines (c # cs) =
     (if c = NL then [c] # readlines cs
      else (case readlines cs of [] \<Rightarrow> [[c]] | line # rest \<Rightarrow> (c # line) # rest))"

definition text_read :: "string \<Rightarrow> string list" where
  "text_read bytes = readlines (universal_newlines bytes)"

subsection \<open>The new \<^verbatim>\<open>.htc\<close> and \<^verbatim>\<open>ae.dat\<close> contents\<close>

definition design_name :: string where "design_name = ''WDR_10_MW''"

definition htc_start_line :: nat where "htc_start_line = 110"
definition n_sec :: nat where "n_sec = 27"
definition htc_end_line :: nat where "htc_end_line = htc_start_line + n_sec"
definition ae_start_line :: nat where "ae_start_line = 2"

text \<open>
  Both files are rewritten by a loop \<^verbatim>\<open>for i, line in enumerate(file)\<close> that assigns to
  \<^verbatim>\<open>content[i]\<close>, the list read from the same file before.
\<close>

fun enumerate_loop ::
  "(nat \<Rightarrow> string \<Rightarrow> string list \<Rightarrow> py_error + string list) \<Rightarrow> string list \<Rightarrow> nat
     \<Rightarrow> string list \<Rightarrow> py_error + string list" where
  "enumerate_loop body [] i content = Inr content"
| "enumerate_loop body (line # rest) i content =
     (case body i line content of
        Inl e \<Rightarrow> Inl e
      | Inr content' \<Rightarrow> enumerate_loop body rest (Suc i) content')"

text \<open>
  \<open>str_float\<close> stands for Python's \<^verbatim>\<open>str\<close> on a float, which the real numbers cannot
  define; it is an argument of everything that writes a number.

  Lines 190 to 195, the new text of a line of the twist table.
\<close>

definition htc_twist_line :: "(real \<Rightarrow> string) \<Rightarrow> real list \<Rightarrow> nat \<Rightarrow> string \<Rightarrow> py_error + string" where
  "htc_twist_line str_float htc_tw i line =
     (let fields = py_split (CHR '' '') (py_strip line);
          fields = (if [] \<in> set fields then remove1 [] fields else fields)
      in if i - htc_start_line < length htc_tw \<and> 4 < length fields then
           Inr ([TAB, TAB] @
                py_join '' '' (fields[4 := str_float (htc_tw ! (i - htc_start_line)) @ '';'' @ [NL]]))
         else Inl IndexError)"

definition ae_filename_line :: string where
  "ae_filename_line = [TAB] @ ''ae_filename ./data/'' @ design_name @ ''_ae.dat;'' @ [NL]"

text \<open>Lines 187 to 196, the body of the loop over the \<^verbatim>\<open>.htc\<close> copy.\<close>

definition new_htc_body ::
  "(real \<Rightarrow> string) \<Rightarrow> real list \<Rightarrow> nat \<Rightarrow> string \<Rightarrow> string list \<Rightarrow> py_error + string list" where
  "new_htc_body str_float htc_tw i line content =
     (case (if py_in ''ae_filename'' line then py_set content i ae_filename_line
            else Inr content) of
        Inl e \<Rightarrow> Inl e
      | Inr content' \<Rightarrow>
          if i \<ge> htc_start_line \<and> i < htc_end_line then
            (case htc_twist_line str_float htc_tw i line of
               Inl e \<Rightarrow> Inl e
             | Inr new_line \<Rightarrow> py_set content' i new_line)
          else Inr content')"

definition new_htc_content ::
  "(real \<Rightarrow> string) \<Rightarrow> real list \<Rightarrow> string list \<Rightarrow> py_error + string list" where
  "new_htc_content str_float htc_tw content =
     enumerate_loop (new_htc_body str_float htc_tw) content 0 content"

text \<open>Lines 210 to 216, the body of the loop over the \<^verbatim>\<open>ae.dat\<close> copy.\<close>

definition new_ae_body ::
  "(real \<Rightarrow> string) \<Rightarrow> geo_mat \<Rightarrow> nat \<Rightarrow> string \<Rightarrow> string list \<Rightarrow> py_error + string list" where
  "new_ae_body str_float working_mat i line content =
     (if i \<ge> ae_start_line then
        (let fields = py_split TAB (py_strip line)
         in if i - ae_start_line < length working_mat \<and> 2 < length fields then
              (let row = working_mat ! (i - ae_start_line);
                   fields = fields[0 := str_float (radius row)];
                   fields = fields[1 := str_float (chord row)];
                   fields = fields[2 := str_float (rel_thickness row)]
               in py_set content i (py_join [TAB] fields @ [NL]))
            else Inl IndexError)
      else Inr content)"

definition new_ae_content ::
  "(real \<Rightarrow> string) \<Rightarrow> geo_mat \<Rightarrow> string list \<Rightarrow> py_error + string list" where
  "new_ae_content str_float working_mat content =
     enumerate_loop (new_ae_body str_float working_mat) content 0 content"

subsection \<open>The files on disk\<close>

text \<open>
  The four path names of the script; \<open>bs\<close> is the backslash.
\<close>

definition bs :: char where "bs = CHR 0x5C"

definition repository :: string where
  "repository =
     ''D:'' @ [bs] @ ''AE EWEM MSc'' @ [bs] @ ''T H E S I S'' @ [bs] @ ''6_code'' @ [bs] @
     ''code repository'' @ [bs] @ ''my_dtu_10mw'' @ [bs]"

definition ae_file_pathname :: string where
  "ae_file_pathname = repository @ ''data'' @ [bs] @ ''DTU_10MW_RWT_ae.dat''"

definition htc_file_pathname :: string where
  "htc_file_pathname = repository @ ''DTU_10MW_rigid_hawc2s_flattened.htc''"

definition new_htc_filename :: string where
  "new_htc_filename = repository @ design_name @ ''.htc''"

definition new_ae_filename :: string where
  "new_ae_filename = repository @ ''data'' @ [bs] @ design_name @ ''_ae.dat''"

text \<open>
  A file has its bytes and may be read-only; the disk maps path names to files. A byte is
  taken for the character it encodes: the decoding and encoding of a text file are not
  modelled. The new files go to the directories of the originals, so no directory is
  missing when the originals are there.
\<close>

record disk_file =
  contents :: string
  read_only :: bool

type_synonym disk = "string \<Rightarrow> disk_file option"

text \<open>
  An operation on a file can fail for a reason that the disk above does not show. The
  environment refuses it before the file is touched (no permission, a file in use), or
  breaks it once the file is open for writing, after some of the bytes (a full disk, a
  device error). The operations of lines 171 to 220 are the two copies and, for either new
  file, the three \<^verbatim>\<open>open\<close> blocks: the read, the loop and the write. \<open>faults\<close> says which of
  them the environment lets fail, and how.
\<close>

datatype io_fault = Refused | Broken_after nat

datatype operation =
  Copy_htc | Copy_ae | Read_htc | Loop_htc | Write_htc | Read_ae | Loop_ae | Write_ae

type_synonym faults = "operation \<Rightarrow> io_fault option"

definition no_faults :: faults where "no_faults = (\<lambda>operation. None)"

text \<open>
  \<^verbatim>\<open>shutil.copy(src, dst)\<close> opens \<open>src\<close> for reading, opens \<open>dst\<close> for writing, which creates
  it or empties it, copies the bytes and then sets the permission bits of \<open>dst\<close> to those
  of \<open>src\<close>. It raises a subclass of \<open>OSError\<close> when \<open>src\<close> is missing, when \<open>dst\<close> is \<open>src\<close>,
  when \<open>dst\<close> exists and is read-only, and when the environment makes it fail; the disk is
  then as it was, unless \<open>dst\<close> had been opened: a copy that breaks leaves in \<open>dst\<close> the
  bytes it had written, all of them when it breaks at the permission bits. The result is
  the exception, if any, and the disk.
\<close>

definition shutil_copy ::
  "io_fault option \<Rightarrow> string \<Rightarrow> string \<Rightarrow> disk \<Rightarrow> py_error option \<times> disk" where
  "shutil_copy fault src dst d =
     (case d src of
        None \<Rightarrow> (Some OSError, d)
      | Some f \<Rightarrow>
          if src = dst then (Some OSError, d)
          else if (case d dst of None \<Rightarrow> False | Some g \<Rightarrow> read_only g)
          then (Some OSError, d)
          else (case fault of
                  None \<Rightarrow> (None, d(dst \<mapsto> f))
                | Some Refused \<Rightarrow> (Some OSError, d)
                | Some (Broken_after n) \<Rightarrow>
                    (Some OSError,
                     d(dst \<mapsto> \<lparr>contents = take n (contents f), read_only = False\<rparr>))))"

text \<open>
  Lines 181 to 200 and 204 to 220: the file is read, opened again with \<^verbatim>\<open>'r+'\<close> for the loop,
  which needs the right to write, and opened with \<^verbatim>\<open>'w'\<close> and written as a whole once the
  loop is through. A fault of the read or of the loop leaves the file as it was, and a
  write that breaks leaves the bytes it had written.
\<close>

definition rewrite_file ::
  "string \<Rightarrow> io_fault option \<Rightarrow> io_fault option \<Rightarrow> io_fault option \<Rightarrow> string
     \<Rightarrow> (string list \<Rightarrow> py_error + string list) \<Rightarrow> disk \<Rightarrow> py_error option \<times> disk" where
  "rewrite_file linesep read_fault loop_fault write_fault name loop d =
     (case d name of
        None \<Rightarrow> (Some OSError, d)
      | Some f \<Rightarrow>
          if read_fault \<noteq> None then (Some OSError, d)
          else if read_only f \<or> loop_fault \<noteq> None then (Some OSError, d)
          else (case loop (text_read (contents f)) of
                  Inl e \<Rightarrow> (Some e, d)
                | Inr content \<Rightarrow>
                    (case write_fault of
                       None \<Rightarrow>
                         (None, d(name \<mapsto> f\<lparr>contents := text_write linesep (concat content)\<rparr>))
                     | Some Refused \<Rightarrow> (Some OSError, d)
                     | Some (Broken_after n) \<Rightarrow>
                         (Some OSError,
                          d(name \<mapsto>
                              f\<lparr>contents := take n (text_write linesep (concat content))\<rparr>)))))"

text \<open>
  How the section ends: both files written, \<^verbatim>\<open>quit()\<close> in the \<^verbatim>\<open>except\<close> branch of the copy
  step, or an exception that nothing catches.
\<close>

datatype outcome = Written | Quit | Raised py_error

text \<open>
  Lines 171 to 220. The bare \<^verbatim>\<open>except\<close> catches whatever either copy raises; the disk is
  then as the copies left it.
\<close>

definition creating_the_files ::
  "(real \<Rightarrow> string) \<Rightarrow> string \<Rightarrow> faults \<Rightarrow> real list \<Rightarrow> geo_mat \<Rightarrow> disk
     \<Rightarrow> outcome \<times> disk" where
  "creating_the_files str_float linesep faults htc_tw working_mat d =
     (case shutil_copy (faults Copy_htc) htc_file_pathname new_htc_filename d of
        (Some e, d1) \<Rightarrow> (Quit, d1)
      | (None, d1) \<Rightarrow>
     (case shutil_copy (faults Copy_ae) ae_file_pathname new_ae_filename d1 of
        (Some e, d2) \<Rightarrow> (Quit, d2)
      | (None, d2) \<Rightarrow>
     (case rewrite_file linesep (faults Read_htc) (faults Loop_htc) (faults Write_htc)
             new_htc_filename (new_htc_content str_float htc_tw) d2 of
        (Some e, d3) \<Rightarrow> (Raised e, d3)
      | (None, d3) \<Rightarrow>
     (case rewrite_file linesep (faults Read_ae) (faults Loop_ae) (faults Write_ae)
             new_ae_filename (new_ae_content str_float working_mat) d3 of
        (Some e, d4) \<Rightarrow> (Raised e, d4)
      | (None, d4) \<Rightarrow> (Written, d4)))))"


subsection \<open>The common form of the loops\<close>

text \<open>
  The five loops differ in the test on the radius, in the array read at \<open>i\<close> and in the
  cell they write. \<open>sel_loop\<close> has these three as arguments; it is used in the proofs only,
  where each loop of the script is shown to be an instance of it.
\<close>

fun sel_loop ::
  "(real \<Rightarrow> bool) \<Rightarrow> (nat \<Rightarrow> bool) \<Rightarrow> (nat \<Rightarrow> geo_row \<Rightarrow> geo_row) \<Rightarrow> real list \<Rightarrow> nat \<Rightarrow> geo_mat
     \<Rightarrow> py_error + geo_mat" where
  "sel_loop sel ok upd [] i w = Inr w"
| "sel_loop sel ok upd (r # rest) i w =
     (if sel r then
        (if i < length w \<and> ok i then sel_loop sel ok upd rest (Suc i) (w[i := upd i (w ! i)])
         else Inl IndexError)
      else sel_loop sel ok upd rest (Suc i) w)"

subsection \<open>The index of an interval\<close>

text \<open>
  Used in the proofs: what the search of \<^verbatim>\<open>np.interp\<close> promises about the index it returns
  for a key between the first and the last point, and one value of the resampling, for
  the guess \<open>g\<close> the search starts from.
\<close>

definition bracket :: "real list \<Rightarrow> real \<Rightarrow> int \<Rightarrow> bool" where
  "bracket arr key j =
     (0 \<le> j \<and> j < int (length arr) \<and> arr ! nat j \<le> key \<and>
      (if nat j + 1 < length arr then key < arr ! (nat j + 1) else True))"

definition interp_g :: "real list \<Rightarrow> real list \<Rightarrow> int \<Rightarrow> real \<Rightarrow> real" where
  "interp_g xp fp g x = interp_value xp fp (binary_search_with_guess x xp g) x"

subsection \<open>The loops over a file, line by line\<close>





subsection \<open>Configurations and inputs of the examples\<close>

definition only_root_chord :: "real \<Rightarrow> real \<Rightarrow> modifiers" where
  "only_root_chord amount threshold =
     no_modifiers\<lparr>root_linear_chord_addition := True, root_chord_addition := amount,
       root_chord_changes_until := threshold\<rparr>"

definition three_sections :: geo_mat where
  "three_sections =
     [\<lparr>radius = 0, twist = 10, chord = 5, rel_thickness = 100\<rparr>,
      \<lparr>radius = 50, twist = 5, chord = 4, rel_thickness = 50\<rparr>,
      \<lparr>radius = 100, twist = 0, chord = 3, rel_thickness = 24\<rparr>]"

definition two_weights :: modifiers where
  "two_weights = no_modifiers\<lparr>supertwist_the_root := True, manual_multiplier := [1, 8 / 10],
     supertwist_changes_until := 1\<rparr>"

definition zero_amounts :: modifiers where
  "zero_amounts =
     script_modifiers\<lparr>root_linear_chord_addition := True, root_chord_addition := 0,
       tip_cos_chord_addition := True, tip_chord_addition := 0,
       cos_chord_addition := True, cos_chord_amount := 0,
       twist_the_root := True, root_twist_addition := 0,
       supertwist_the_root := True, supertwist_addition := 0,
       make_root_cylindrical := True\<rparr>"

definition two_sections :: geo_mat where
  "two_sections =
     [\<lparr>radius = 10, twist = 10, chord = 5, rel_thickness = 50\<rparr>,
      \<lparr>radius = 100, twist = 0, chord = 3, rel_thickness = 24\<rparr>]"

definition three_ae_rows :: "(real \<times> real \<times> real) list" where
  "three_ae_rows = [(0, 5, 100), (50, 4, 50), (100, 3, 24)]"

definition baseline_store :: "geo_mat \<Rightarrow> store" where
  "baseline_store g = \<lparr>arrays = (\<lambda>a. [])(0 := g), lim = 1\<rparr>"

subsection \<open>An example pair of files\<close>

text \<open>
  \<open>str_whole\<close> is Python's \<^verbatim>\<open>str\<close> on the floats that are whole numbers of magnitude below
  \<open>10\<^sup>1\<^sup>6\<close>: the digits, then \<^verbatim>\<open>.0\<close>. The examples write whole numbers only.
\<close>

fun digits :: "nat \<Rightarrow> string" where
  "digits n =
     (if n < 10 then [''0123456789'' ! n]
      else digits (n div 10) @ [''0123456789'' ! (n mod 10)])"

definition str_whole :: "real \<Rightarrow> string" where
  "str_whole x = (if x < 0 then ''-'' else []) @ digits (nat \<lfloor>\<bar>x\<bar>\<rfloor>) @ ''.0''"

text \<open>
  A \<^verbatim>\<open>.htc\<close> file of 137 lines: 110 lines before the twist table, the sixth naming the
  \<^verbatim>\<open>ae.dat\<close> file, then 27 sections at the positions 0, 1, ..., 26 with twist 0. A section
  of one digit has two blanks after its number, as the comment at line 192 says.
\<close>

definition sec_line :: "nat \<Rightarrow> string" where
  "sec_line k =
     [TAB, TAB] @ ''sec'' @ [TAB] @ digits (Suc k) @ (if Suc k < 10 then ''  '' else '' '') @
     ''0.0 0.0 '' @ str_whole (real k) @ '' 0.0;'' @ [NL]"

definition section_numbers :: "nat list" where
  "section_numbers =
     [0, 1, 2, 3, 4, 5, 6, 7, 8, 9, 10, 11, 12, 13, 14, 15, 16, 17, 18, 19, 20, 21, 22, 23, 24,
      25, 26]"

definition htc_example :: "string list" where
  "htc_example =
     replicate 5 (''; blade'' @ [NL]) @
     [[TAB] @ ''ae_filename ./data/DTU_10MW_RWT_ae.dat;'' @ [NL]] @
     replicate 104 (''; blade'' @ [NL]) @
     map sec_line section_numbers"


definition ae_example :: "string list" where
  "ae_example =
     [''1 r,c,tc,pc'' @ [NL], ''1 3'' @ [NL],
      ''0.0'' @ [TAB] @ ''5.0'' @ [TAB] @ ''100.0'' @ [TAB] @ ''1'' @ [NL],
      ''50.0'' @ [TAB] @ ''4.0'' @ [TAB] @ ''50.0'' @ [TAB] @ ''1'' @ [NL],
      ''100.0'' @ [TAB] @ ''3.0'' @ [TAB] @ ''24.0'' @ [TAB] @ ''1'' @ [NL]]"



text \<open>
  The disk with the two original files of the example, their line endings \<open>CR LF\<close>. Two
  more disks with them: on the first a read-only file has the name of the new \<^verbatim>\<open>.htc\<close>
  file, on the second one has the name of the new \<^verbatim>\<open>ae.dat\<close> file.
\<close>

definition original_files :: disk where
  "original_files =
     [htc_file_pathname \<mapsto>
        \<lparr>contents = text_write [CR, NL] (concat htc_example), read_only = False\<rparr>,
      ae_file_pathname \<mapsto>
        \<lparr>contents = text_write [CR, NL] (concat ae_example), read_only = False\<rparr>]"

definition locked_htc_disk :: disk where
  "locked_htc_disk = original_files(new_htc_filename \<mapsto> \<lparr>contents = [], read_only = True\<rparr>)"

definition locked_ae_disk :: disk where
  "locked_ae_disk = original_files(new_ae_filename \<mapsto> \<lparr>contents = [], read_only = True\<rparr>)"

section \<open>The loops of the modifiers\<close>

lemma root_linear_chord_loop_sel:
  "root_linear_chord_loop a t lm rs i w =
     sel_loop (\<lambda>r. r \<le> t) (\<lambda>i. i < length lm)
       (\<lambda>i row. row\<lparr>chord := chord row - a * lm ! i\<rparr>) rs i w"
  by (induction rs arbitrary: i w) simp_all

lemma tip_cos_chord_loop_sel:
  "tip_cos_chord_loop a t lm rs i w =
     sel_loop (\<lambda>r. r \<ge> t) (\<lambda>i. i < length lm)
       (\<lambda>i row. row\<lparr>chord := chord row + a * lm ! i\<rparr>) rs i w"
  by (induction rs arbitrary: i w) simp_all

lemma twist_the_root_loop_sel:
  "twist_the_root_loop a t lm rs i w =
     sel_loop (\<lambda>r. r \<le> t) (\<lambda>i. i < length lm)
       (\<lambda>i row. row\<lparr>twist := twist row + a * lm ! i\<rparr>) rs i w"
  by (induction rs arbitrary: i w) simp_all

lemma supertwist_the_root_loop_sel:
  "supertwist_the_root_loop a t lm rs i w =
     sel_loop (\<lambda>r. r \<le> t) (\<lambda>i. i < length lm)
       (\<lambda>i row. row\<lparr>twist := twist row + a * lm ! i\<rparr>) rs i w"
  by (induction rs arbitrary: i w) simp_all

lemma make_root_cylindrical_loop_sel:
  "make_root_cylindrical_loop t rs i w =
     sel_loop (\<lambda>r. r \<le> t) (\<lambda>i. True)
       (\<lambda>i row. row\<lparr>rel_thickness := 100\<rparr>) rs i w"
  by (induction rs arbitrary: i w) simp_all

lemma sel_loop_length:
  "sel_loop sel ok upd rs i w = Inr w' \<Longrightarrow> length w' = length w"
  by (induction rs arbitrary: i w) (auto split: if_splits)

lemma sel_loop_nth:
  "sel_loop sel ok upd rs i w = Inr w' \<Longrightarrow> k < length w \<Longrightarrow>
   w' ! k = (if i \<le> k \<and> k < i + length rs \<and> sel (rs ! (k - i)) then upd k (w ! k) else w ! k)"
proof (induction rs arbitrary: i w)
  case Nil
  then show ?case by simp
next
  case (Cons r rest)
  show ?case
  proof (cases "sel r")
    case True
    with Cons.prems have ok: "i < length w" "ok i"
      and rec: "sel_loop sel ok upd rest (Suc i) (w[i := upd i (w ! i)]) = Inr w'"
      by (auto split: if_splits)
    from Cons.IH[OF rec] Cons.prems(2)
    have "w' ! k = (if Suc i \<le> k \<and> k < Suc i + length rest \<and> sel (rest ! (k - Suc i))
                   then upd k (w[i := upd i (w ! i)] ! k) else w[i := upd i (w ! i)] ! k)"
      by simp
    then show ?thesis using True ok Cons.prems(2)
      by (cases "k = i") (auto simp: nth_Cons' Suc_diff_le)
  next
    case False
    with Cons.prems have rec: "sel_loop sel ok upd rest (Suc i) w = Inr w'"
      by simp
    from Cons.IH[OF rec] Cons.prems(2)
    have "w' ! k = (if Suc i \<le> k \<and> k < Suc i + length rest \<and> sel (rest ! (k - Suc i))
                   then upd k (w ! k) else w ! k)"
      by simp
    then show ?thesis using False
      by (cases "k = i") (auto simp: nth_Cons' Suc_diff_le)
  qed
qed

lemma sel_loop_error: "sel_loop sel ok upd rs i w = Inl e \<Longrightarrow> e = IndexError"
  by (induction rs arbitrary: i w) (auto split: if_splits)

lemma sel_loop_Inr_iff:
  "(\<exists>w'. sel_loop sel ok upd rs i w = Inr w') \<longleftrightarrow>
   (\<forall>j < length rs. sel (rs ! j) \<longrightarrow> i + j < length w \<and> ok (i + j))"
proof (induction rs arbitrary: i w)
  case Nil
  then show ?case by simp
next
  case (Cons r rest)
  have all_Suc: "\<And>P. (\<forall>j < Suc (length rest). P j) \<longleftrightarrow> (P 0 \<and> (\<forall>j < length rest. P (Suc j)))"
    by (metis less_Suc_eq_0_disj)
  show ?case
    using Cons.IH[of "Suc i" w] Cons.IH[of "Suc i" "w[i := upd i (w ! i)]"]
    by (auto simp: all_Suc)
qed


lemma sel_loop_same_length_ok:
  assumes "sel_loop sel ok upd rs i w = Inr w'" and "length u = length w"
  shows "\<exists>u'. sel_loop sel ok upd' rs i u = Inr u'"
proof -
  from assms(1) have "\<forall>j < length rs. sel (rs ! j) \<longrightarrow> i + j < length w \<and> ok (i + j)"
    using sel_loop_Inr_iff[of sel ok upd rs i w] by blast
  with assms(2) show ?thesis
    using sel_loop_Inr_iff[of sel ok upd' rs i u] by simp
qed

lemma sel_loop_field:
  assumes "sel_loop sel ok upd rs i w = Inr w'" and "\<And>k row. f (upd k row) = f row"
  shows "map f w' = map f w"
proof (rule nth_equalityI)
  show "length (map f w') = length (map f w)"
    using sel_loop_length[OF assms(1)] by simp
next
  fix k assume "k < length (map f w')"
  then have k: "k < length w" using sel_loop_length[OF assms(1)] by simp
  then show "map f w' ! k = map f w ! k"
    using sel_loop_nth[OF assms(1) k] sel_loop_length[OF assms(1)] assms(2) by simp
qed

lemma sel_loop_identity:
  assumes "sel_loop sel ok upd rs i w = Inr w'" and "\<And>k row. upd k row = row"
  shows "w' = w"
  using sel_loop_field[OF assms(1), of "\<lambda>row. row"] assms(2) by simp

lemma sel_loop_idempotent:
  assumes "sel_loop sel ok upd rs i w = Inr w'" and "\<And>k row. upd k (upd k row) = upd k row"
  shows "sel_loop sel ok upd rs i w' = Inr w'"
proof -
  have len: "length w' = length w" by (rule sel_loop_length[OF assms(1)])
  from sel_loop_same_length_ok[OF assms(1) len] obtain u where
    u: "sel_loop sel ok upd rs i w' = Inr u" by blast
  have "u = w'"
  proof (rule nth_equalityI)
    show "length u = length w'" by (rule sel_loop_length[OF u])
  next
    fix k assume "k < length u"
    then have k': "k < length w'" and k: "k < length w"
      using sel_loop_length[OF u] len by simp_all
    show "u ! k = w' ! k"
      using sel_loop_nth[OF u k'] sel_loop_nth[OF assms(1) k] assms(2) by simp
  qed
  with u show ?thesis by simp
qed

section \<open>The linear root chord shift on three sections\<close>

text \<open>
  C2. Three sections with radii 0, 50, 100 and chords 5, 4, 3, whatever their twists and
  thicknesses: the linear root chord shift alone, with amount \<open>-1\<close> and threshold \<open>0.5\<close>,
  gives the chords 4, 3.5, 3. The first two sections are changed in their chord only and
  the third section is the one it was.
\<close>

theorem root_chord_shift_three_sections:
  "changed_design (only_root_chord (- 1) (5 / 10))
     [\<lparr>radius = 0, twist = t0, chord = 5, rel_thickness = k0\<rparr>,
      \<lparr>radius = 50, twist = t1, chord = 4, rel_thickness = k1\<rparr>,
      \<lparr>radius = 100, twist = t2, chord = 3, rel_thickness = k2\<rparr>]
   = Inr [\<lparr>radius = 0, twist = t0, chord = 4, rel_thickness = k0\<rparr>,
          \<lparr>radius = 50, twist = t1, chord = 35 / 10, rel_thickness = k1\<rparr>,
          \<lparr>radius = 100, twist = t2, chord = 3, rel_thickness = k2\<rparr>]"
  by (simp add: changed_design_def radius_nd_def modifier_blocks_def run_blocks_def block_list_def
      when_enabled_def
      only_root_chord_def no_modifiers_def script_modifiers_def root_linear_chord_block_def)

section \<open>The selection of the root modifiers\<close>

lemma root_linear_chord_block_ok:
  "length rnd = length w \<Longrightarrow> \<exists>w'. root_linear_chord_block a t rnd w = Inr w'"
  unfolding root_linear_chord_block_def Let_def root_linear_chord_loop_sel
  by (subst sel_loop_Inr_iff) simp

lemma twist_the_root_block_ok:
  "length rnd = length w \<Longrightarrow> \<exists>w'. twist_the_root_block a t rnd w = Inr w'"
  unfolding twist_the_root_block_def Let_def twist_the_root_loop_sel
  by (subst sel_loop_Inr_iff) simp

lemma tip_cos_chord_block_ok:
  "length rnd = length w \<Longrightarrow> \<exists>w'. tip_cos_chord_block a t rnd w = Inr w'"
  unfolding tip_cos_chord_block_def Let_def tip_cos_chord_loop_sel
  by (subst sel_loop_Inr_iff) simp

lemma make_root_cylindrical_block_ok:
  "length rnd = length w \<Longrightarrow> \<exists>w'. make_root_cylindrical_block t rnd w = Inr w'"
  unfolding make_root_cylindrical_block_def make_root_cylindrical_loop_sel
  by (subst sel_loop_Inr_iff) simp

lemma root_linear_chord_block_nth:
  assumes "root_linear_chord_block a t rnd w = Inr w'" and "k < length w" and "k < length rnd"
  shows "w' ! k = (if rnd ! k \<le> t then (w ! k)\<lparr>chord := chord (w ! k) - a * (rnd ! k - 1)\<rparr>
                   else w ! k)"
  using assms(1)[unfolded root_linear_chord_block_def Let_def root_linear_chord_loop_sel]
    assms(2,3)
  by (simp add: sel_loop_nth)

lemma twist_the_root_block_nth:
  assumes "twist_the_root_block a t rnd w = Inr w'" and "k < length w" and "k < length rnd"
  shows "w' ! k = (if rnd ! k \<le> t then (w ! k)\<lparr>twist := twist (w ! k) + a * - (rnd ! k - 1)\<rparr>
                   else w ! k)"
  using assms(1)[unfolded twist_the_root_block_def Let_def twist_the_root_loop_sel]
    assms(2,3)
  by (simp add: sel_loop_nth)

lemma supertwist_the_root_block_nth:
  assumes "supertwist_the_root_block a t mm rnd w = Inr w'" and "k < length w" and "k < length rnd"
  shows "w' ! k = (if rnd ! k \<le> t then (w ! k)\<lparr>twist := twist (w ! k) + a * mm ! k\<rparr>
                   else w ! k)"
  using assms(1)[unfolded supertwist_the_root_block_def supertwist_the_root_loop_sel]
    assms(2,3)
  by (simp add: sel_loop_nth)

lemma make_root_cylindrical_block_nth:
  assumes "make_root_cylindrical_block t rnd w = Inr w'" and "k < length w" and "k < length rnd"
  shows "w' ! k = (if rnd ! k \<le> t then (w ! k)\<lparr>rel_thickness := 100\<rparr> else w ! k)"
  using assms(1)[unfolded make_root_cylindrical_block_def make_root_cylindrical_loop_sel]
    assms(2,3)
  by (simp add: sel_loop_nth)

text \<open>
  C3. For every threshold \<open>t\<close>, each of the four modifiers that select the root (the linear
  chord shift, the linear twist shift, the cylindrical override and the manual twist) runs
  its assignment on section \<open>k\<close> when the normalized radius of \<open>k\<close> is at most \<open>t\<close>, the
  boundary included, and leaves every field of section \<open>k\<close> as it was when that radius is
  greater than \<open>t\<close>. The first three always return; the manual twist is taken where it
  returns.
\<close>

theorem root_selection_boundary:
  assumes len: "length rnd = length working_mat" and k: "k < length working_mat"
  shows
    "(\<exists>w. root_linear_chord_block a t rnd working_mat = Inr w \<and>
          w ! k = (if rnd ! k \<le> t
                   then (working_mat ! k)\<lparr>chord := chord (working_mat ! k) - a * (rnd ! k - 1)\<rparr>
                   else working_mat ! k)) \<and>
     (\<exists>w. twist_the_root_block a t rnd working_mat = Inr w \<and>
          w ! k = (if rnd ! k \<le> t
                   then (working_mat ! k)\<lparr>twist := twist (working_mat ! k) + a * - (rnd ! k - 1)\<rparr>
                   else working_mat ! k)) \<and>
     (\<exists>w. make_root_cylindrical_block t rnd working_mat = Inr w \<and>
          w ! k = (if rnd ! k \<le> t then (working_mat ! k)\<lparr>rel_thickness := 100\<rparr>
                   else working_mat ! k)) \<and>
     (\<forall>w. supertwist_the_root_block a t weights rnd working_mat = Inr w \<longrightarrow>
          w ! k = (if rnd ! k \<le> t
                   then (working_mat ! k)\<lparr>twist := twist (working_mat ! k) + a * weights ! k\<rparr>
                   else working_mat ! k))"
proof -
  have k': "k < length rnd" using len k by simp
  obtain w1 where w1: "root_linear_chord_block a t rnd working_mat = Inr w1"
    using root_linear_chord_block_ok[OF len] by blast
  obtain w2 where w2: "twist_the_root_block a t rnd working_mat = Inr w2"
    using twist_the_root_block_ok[OF len] by blast
  obtain w3 where w3: "make_root_cylindrical_block t rnd working_mat = Inr w3"
    using make_root_cylindrical_block_ok[OF len] by blast
  show ?thesis
    using root_linear_chord_block_nth[OF w1 k k'] twist_the_root_block_nth[OF w2 k k']
      make_root_cylindrical_block_nth[OF w3 k k'] supertwist_the_root_block_nth[OF _ k k']
      w1 w2 w3
    by simp
qed

theorem root_selection_boundary_witness:
  "length [0, 1 / 2, 1 :: real] = length three_sections \<and> Suc 0 < length three_sections \<and>
   root_linear_chord_block (- 1) (1 / 2) [0, 1 / 2, 1] three_sections =
     Inr [\<lparr>radius = 0, twist = 10, chord = 4, rel_thickness = 100\<rparr>,
          \<lparr>radius = 50, twist = 5, chord = 7 / 2, rel_thickness = 50\<rparr>,
          \<lparr>radius = 100, twist = 0, chord = 3, rel_thickness = 24\<rparr>] \<and>
   supertwist_the_root_block (- 1) (1 / 2) [1, 2] [0, 1 / 2, 1] three_sections =
     Inr [\<lparr>radius = 0, twist = 9, chord = 5, rel_thickness = 100\<rparr>,
          \<lparr>radius = 50, twist = 3, chord = 4, rel_thickness = 50\<rparr>,
          \<lparr>radius = 100, twist = 0, chord = 3, rel_thickness = 24\<rparr>]"
  using root_selection_boundary[of "[0, 1 / 2, 1]" three_sections "Suc 0" "- 1" "1 / 2" "[1, 2]"]
  by (simp add: three_sections_def root_linear_chord_block_def supertwist_the_root_block_def)

section \<open>Too few manual weights\<close>

lemma supertwist_Inr_weights:
  assumes "supertwist_the_root_block a t weights rnd w = Inr w'"
  shows "length (filter (\<lambda>r. r \<le> t) rnd) \<le> length weights"
proof -
  from assms have "\<exists>w'. sel_loop (\<lambda>r. r \<le> t) (\<lambda>i. i < length weights)
       (\<lambda>i row. row\<lparr>twist := twist row + a * weights ! i\<rparr>) rnd 0 w = Inr w'"
    unfolding supertwist_the_root_block_def supertwist_the_root_loop_sel by blast
  then have sel: "\<forall>j < length rnd. rnd ! j \<le> t \<longrightarrow> j < length weights"
    by (subst (asm) sel_loop_Inr_iff) simp
  have "length (filter (\<lambda>r. r \<le> t) rnd) = card {j. j < length rnd \<and> rnd ! j \<le> t}"
    by (rule length_filter_conv_card)
  also have "\<dots> \<le> card {..< length weights}"
    by (rule card_mono) (use sel in auto)
  finally show ?thesis by simp
qed

text \<open>
  C5, as the script has it. When the manual twist has fewer weights than sections
  selected by its threshold, the block stops with Python's \<open>IndexError\<close>, raised by
  the read \<^verbatim>\<open>manual_multiplier[i]\<close>.
\<close>

theorem manual_weights_too_short:
  assumes "length weights < length (filter (\<lambda>r. r \<le> t) rnd)"
  shows "supertwist_the_root_block a t weights rnd working_mat = Inl IndexError"
proof (cases "supertwist_the_root_block a t weights rnd working_mat")
  case (Inl e)
  then have "e = IndexError"
    unfolding supertwist_the_root_block_def supertwist_the_root_loop_sel
    by (rule sel_loop_error)
  with Inl show ?thesis by simp
next
  case (Inr w')
  from supertwist_Inr_weights[OF Inr] assms show ?thesis by simp
qed

theorem manual_weights_too_short_witness:
  "length [1, 8 / 10 :: real] < length (filter (\<lambda>r. r \<le> 1) [0, 1 / 2, 1 :: real]) \<and>
   supertwist_the_root_block (- 64) 1 [1, 8 / 10] [0, 1 / 2, 1] three_sections = Inl IndexError"
  using manual_weights_too_short[of "[1, 8 / 10]" 1 "[0, 1 / 2, 1]" "- 64" three_sections]
  by simp

text \<open>
  Two weights for three selected sections: the run ends with \<open>IndexError\<close>, which is not
  the \<open>ConfigurationError\<close> of the claim.
\<close>

theorem manual_weights_counterexample:
  "changed_design two_weights three_sections = Inl IndexError \<and>
   changed_design two_weights three_sections \<noteq> Inl ConfigurationError"
  by (simp add: changed_design_def radius_nd_def modifier_blocks_def run_blocks_def block_list_def
      when_enabled_def two_weights_def no_modifiers_def script_modifiers_def three_sections_def
      supertwist_the_root_block_def)

section \<open>The columns a modifier writes\<close>

lemma root_linear_chord_block_columns:
  assumes "root_linear_chord_block a t rnd w = Inr w'"
  shows "map radius w' = map radius w" and "map twist w' = map twist w"
    and "map rel_thickness w' = map rel_thickness w"
  using assms unfolding root_linear_chord_block_def Let_def root_linear_chord_loop_sel
  by (auto elim: sel_loop_field)

lemma tip_cos_chord_block_columns:
  assumes "tip_cos_chord_block a t rnd w = Inr w'"
  shows "map radius w' = map radius w" and "map twist w' = map twist w"
    and "map rel_thickness w' = map rel_thickness w"
  using assms unfolding tip_cos_chord_block_def Let_def tip_cos_chord_loop_sel
  by (auto elim: sel_loop_field)

lemma cos_chord_block_columns:
  assumes "cos_chord_block a rnd w = Inr w'"
  shows "map radius w' = map radius w" and "map twist w' = map twist w"
    and "map rel_thickness w' = map rel_thickness w"
proof -
  from assms have len: "length rnd = length w"
    and w': "w' = map (\<lambda>(row, m). row\<lparr>chord := chord row + a * m\<rparr>)
                   (zip w (map (\<lambda>r. - cos (r * pi)) rnd))"
    by (auto simp: cos_chord_block_def Let_def split: if_splits)
  show "map radius w' = map radius w" "map twist w' = map twist w"
    "map rel_thickness w' = map rel_thickness w"
    unfolding w' using len by (auto intro!: nth_equalityI)
qed

lemma twist_the_root_block_columns:
  assumes "twist_the_root_block a t rnd w = Inr w'"
  shows "map radius w' = map radius w" and "map chord w' = map chord w"
    and "map rel_thickness w' = map rel_thickness w"
  using assms unfolding twist_the_root_block_def Let_def twist_the_root_loop_sel
  by (auto elim: sel_loop_field)

lemma supertwist_the_root_block_columns:
  assumes "supertwist_the_root_block a t weights rnd w = Inr w'"
  shows "map radius w' = map radius w" and "map chord w' = map chord w"
    and "map rel_thickness w' = map rel_thickness w"
  using assms unfolding supertwist_the_root_block_def supertwist_the_root_loop_sel
  by (auto elim: sel_loop_field)

lemma make_root_cylindrical_block_columns:
  assumes "make_root_cylindrical_block t rnd w = Inr w'"
  shows "map radius w' = map radius w" and "map twist w' = map twist w"
    and "map chord w' = map chord w"
  using assms unfolding make_root_cylindrical_block_def make_root_cylindrical_loop_sel
  by (auto elim: sel_loop_field)

lemma run_blocks_Nil: "run_blocks [] res = res"
  by (simp add: run_blocks_def)

lemma run_blocks_Cons:
  "run_blocks ((flag, block) # rest) res = run_blocks rest (when_enabled flag block res)"
  by (simp add: run_blocks_def)

lemma run_blocks_Inl: "run_blocks blocks (Inl e) = Inl e"
  by (induction blocks) (auto simp: run_blocks_Nil run_blocks_Cons when_enabled_def)

lemma run_blocks_invariant:
  assumes "run_blocks blocks (Inr w) = Inr w'" and "Q w"
    and "\<And>flag block u u'. (flag, block) \<in> set blocks \<Longrightarrow> flag \<Longrightarrow> Q u \<Longrightarrow> block u = Inr u' \<Longrightarrow> Q u'"
  shows "Q w'"
  using assms
proof (induction blocks arbitrary: w)
  case Nil
  then show ?case by (simp add: run_blocks_Nil)
next
  case (Cons fb rest)
  obtain flag block where fb: "fb = (flag, block)" by (cases fb)
  show ?case
  proof (cases "flag")
    case False
    with Cons.prems(1) have "run_blocks rest (Inr w) = Inr w'"
      by (simp add: fb run_blocks_Cons when_enabled_def)
    then show ?thesis using Cons.IH Cons.prems(2,3) by (metis list.set_intros(2))
  next
    case True
    show ?thesis
    proof (cases "block w")
      case (Inl e)
      with True Cons.prems(1) show ?thesis
        by (simp add: fb run_blocks_Cons when_enabled_def run_blocks_Inl)
    next
      case (Inr u)
      with True Cons.prems(1) have run: "run_blocks rest (Inr u) = Inr w'"
        by (simp add: fb run_blocks_Cons when_enabled_def)
      have "Q u" using Cons.prems(3)[of flag block w u] True Inr Cons.prems(2) fb by simp
      then show ?thesis using Cons.IH[OF run] Cons.prems(3) by (metis list.set_intros(2))
    qed
  qed
qed

lemma modifier_blocks_radius:
  assumes "modifier_blocks cfg rnd w = Inr w'"
  shows "map radius w' = map radius w"
proof (rule run_blocks_invariant[where Q = "\<lambda>u. map radius u = map radius w",
      OF assms[unfolded modifier_blocks_def]])
  show "map radius w = map radius w" ..
next
  fix flag block u u'
  assume "(flag, block) \<in> set (block_list cfg rnd)" "flag" "map radius u = map radius w"
    "block u = Inr u'"
  then show "map radius u' = map radius w"
    by (auto simp: block_list_def dest: root_linear_chord_block_columns(1)
        tip_cos_chord_block_columns(1) cos_chord_block_columns(1) twist_the_root_block_columns(1)
        supertwist_the_root_block_columns(1) make_root_cylindrical_block_columns(1))
qed

lemma radius_nd_cong:
  assumes "map radius u = map radius g"
  shows "radius_nd u = radius_nd g"
proof -
  have rn: "\<And>m. radius_nd m =
     (if map radius m = [] then Inl IndexError
      else if last (map radius m) = 0 then Inl NonFinite
           else Inr (map (\<lambda>x. x / last (map radius m)) (map radius m)))"
    by (simp add: radius_nd_def Let_def last_map comp_def)
  show ?thesis by (simp only: rn assms)
qed

text \<open>
  C9. Each block, where it returns, leaves the three columns that are not its target as
  they were: the three chord blocks the radius, twist and thickness, the two twist blocks
  the radius, chord and thickness, the cylindrical override the radius, twist and chord.
  So for every setting of the switches the changed design has the radius column of the
  baseline, hence the same non-dimensional radius and the same order of the radii.
\<close>

theorem modifiers_write_own_column:
  "(root_linear_chord_block a t rnd w = Inr w1 \<longrightarrow>
      map radius w1 = map radius w \<and> map twist w1 = map twist w \<and>
      map rel_thickness w1 = map rel_thickness w) \<and>
   (tip_cos_chord_block a t rnd w = Inr w2 \<longrightarrow>
      map radius w2 = map radius w \<and> map twist w2 = map twist w \<and>
      map rel_thickness w2 = map rel_thickness w) \<and>
   (cos_chord_block a rnd w = Inr w3 \<longrightarrow>
      map radius w3 = map radius w \<and> map twist w3 = map twist w \<and>
      map rel_thickness w3 = map rel_thickness w) \<and>
   (twist_the_root_block a t rnd w = Inr w4 \<longrightarrow>
      map radius w4 = map radius w \<and> map chord w4 = map chord w \<and>
      map rel_thickness w4 = map rel_thickness w) \<and>
   (supertwist_the_root_block a t weights rnd w = Inr w5 \<longrightarrow>
      map radius w5 = map radius w \<and> map chord w5 = map chord w \<and>
      map rel_thickness w5 = map rel_thickness w) \<and>
   (make_root_cylindrical_block t rnd w = Inr w6 \<longrightarrow>
      map radius w6 = map radius w \<and> map twist w6 = map twist w \<and>
      map chord w6 = map chord w) \<and>
   (changed_design cfg geo_mat = Inr working_mat \<longrightarrow>
      map radius working_mat = map radius geo_mat \<and>
      radius_nd working_mat = radius_nd geo_mat \<and>
      sorted_wrt (<) (map radius working_mat) = sorted_wrt (<) (map radius geo_mat))"
proof -
  have "map radius working_mat = map radius geo_mat"
    if "changed_design cfg geo_mat = Inr working_mat"
    using that modifier_blocks_radius
    by (auto simp: changed_design_def split: sum.splits)
  then show ?thesis
    using root_linear_chord_block_columns[of a t rnd w w1]
      tip_cos_chord_block_columns[of a t rnd w w2]
      cos_chord_block_columns[of a rnd w w3]
      twist_the_root_block_columns[of a t rnd w w4]
      supertwist_the_root_block_columns[of a t weights rnd w w5]
      make_root_cylindrical_block_columns[of t rnd w w6]
      radius_nd_cong[of working_mat geo_mat]
    by simp
qed

theorem modifiers_write_own_column_witness:
  "root_linear_chord_block (- 1) (1 / 2) [0, 1 / 2, 1] three_sections =
     Inr [\<lparr>radius = 0, twist = 10, chord = 4, rel_thickness = 100\<rparr>,
          \<lparr>radius = 50, twist = 5, chord = 7 / 2, rel_thickness = 50\<rparr>,
          \<lparr>radius = 100, twist = 0, chord = 3, rel_thickness = 24\<rparr>] \<and>
   tip_cos_chord_block (- 1) (1 / 2) [0, 1 / 2, 1] three_sections =
     Inr [\<lparr>radius = 0, twist = 10, chord = 5, rel_thickness = 100\<rparr>,
          \<lparr>radius = 50, twist = 5, chord = 4, rel_thickness = 50\<rparr>,
          \<lparr>radius = 100, twist = 0, chord = 2, rel_thickness = 24\<rparr>] \<and>
   cos_chord_block (- 1) [0, 1 / 2, 1] three_sections =
     Inr [\<lparr>radius = 0, twist = 10, chord = 6, rel_thickness = 100\<rparr>,
          \<lparr>radius = 50, twist = 5, chord = 4, rel_thickness = 50\<rparr>,
          \<lparr>radius = 100, twist = 0, chord = 2, rel_thickness = 24\<rparr>] \<and>
   twist_the_root_block (- 1) (1 / 2) [0, 1 / 2, 1] three_sections =
     Inr [\<lparr>radius = 0, twist = 9, chord = 5, rel_thickness = 100\<rparr>,
          \<lparr>radius = 50, twist = 9 / 2, chord = 4, rel_thickness = 50\<rparr>,
          \<lparr>radius = 100, twist = 0, chord = 3, rel_thickness = 24\<rparr>] \<and>
   supertwist_the_root_block (- 1) (1 / 2) [1, 2] [0, 1 / 2, 1] three_sections =
     Inr [\<lparr>radius = 0, twist = 9, chord = 5, rel_thickness = 100\<rparr>,
          \<lparr>radius = 50, twist = 3, chord = 4, rel_thickness = 50\<rparr>,
          \<lparr>radius = 100, twist = 0, chord = 3, rel_thickness = 24\<rparr>] \<and>
   make_root_cylindrical_block (1 / 2) [0, 1 / 2, 1] three_sections =
     Inr [\<lparr>radius = 0, twist = 10, chord = 5, rel_thickness = 100\<rparr>,
          \<lparr>radius = 50, twist = 5, chord = 4, rel_thickness = 100\<rparr>,
          \<lparr>radius = 100, twist = 0, chord = 3, rel_thickness = 24\<rparr>] \<and>
   changed_design script_modifiers three_sections =
     Inr [\<lparr>radius = 0, twist = - 54, chord = 4, rel_thickness = 100\<rparr>,
          \<lparr>radius = 50, twist = 5, chord = 4, rel_thickness = 50\<rparr>,
          \<lparr>radius = 100, twist = 0, chord = 3, rel_thickness = 24\<rparr>] \<and>
   radius_nd [\<lparr>radius = 0, twist = - 54, chord = 4, rel_thickness = 100\<rparr>,
          \<lparr>radius = 50, twist = 5, chord = 4, rel_thickness = 50\<rparr>,
          \<lparr>radius = 100, twist = 0, chord = 3, rel_thickness = 24\<rparr>] = radius_nd three_sections"
proof -
  have e1: "root_linear_chord_block (- 1) (1 / 2) [0, 1 / 2, 1] three_sections =
     Inr [\<lparr>radius = 0, twist = 10, chord = 4, rel_thickness = 100\<rparr>,
          \<lparr>radius = 50, twist = 5, chord = 7 / 2, rel_thickness = 50\<rparr>,
          \<lparr>radius = 100, twist = 0, chord = 3, rel_thickness = 24\<rparr>]"
    by (simp add: three_sections_def root_linear_chord_block_def)
  have e2: "tip_cos_chord_block (- 1) (1 / 2) [0, 1 / 2, 1] three_sections =
     Inr [\<lparr>radius = 0, twist = 10, chord = 5, rel_thickness = 100\<rparr>,
          \<lparr>radius = 50, twist = 5, chord = 4, rel_thickness = 50\<rparr>,
          \<lparr>radius = 100, twist = 0, chord = 2, rel_thickness = 24\<rparr>]"
    by (simp add: three_sections_def tip_cos_chord_block_def)
  have e3: "cos_chord_block (- 1) [0, 1 / 2, 1] three_sections =
     Inr [\<lparr>radius = 0, twist = 10, chord = 6, rel_thickness = 100\<rparr>,
          \<lparr>radius = 50, twist = 5, chord = 4, rel_thickness = 50\<rparr>,
          \<lparr>radius = 100, twist = 0, chord = 2, rel_thickness = 24\<rparr>]"
    by (simp add: three_sections_def cos_chord_block_def)
  have e4: "twist_the_root_block (- 1) (1 / 2) [0, 1 / 2, 1] three_sections =
     Inr [\<lparr>radius = 0, twist = 9, chord = 5, rel_thickness = 100\<rparr>,
          \<lparr>radius = 50, twist = 9 / 2, chord = 4, rel_thickness = 50\<rparr>,
          \<lparr>radius = 100, twist = 0, chord = 3, rel_thickness = 24\<rparr>]"
    by (simp add: three_sections_def twist_the_root_block_def)
  have e5: "supertwist_the_root_block (- 1) (1 / 2) [1, 2] [0, 1 / 2, 1] three_sections =
     Inr [\<lparr>radius = 0, twist = 9, chord = 5, rel_thickness = 100\<rparr>,
          \<lparr>radius = 50, twist = 3, chord = 4, rel_thickness = 50\<rparr>,
          \<lparr>radius = 100, twist = 0, chord = 3, rel_thickness = 24\<rparr>]"
    by (simp add: three_sections_def supertwist_the_root_block_def)
  have e6: "make_root_cylindrical_block (1 / 2) [0, 1 / 2, 1] three_sections =
     Inr [\<lparr>radius = 0, twist = 10, chord = 5, rel_thickness = 100\<rparr>,
          \<lparr>radius = 50, twist = 5, chord = 4, rel_thickness = 100\<rparr>,
          \<lparr>radius = 100, twist = 0, chord = 3, rel_thickness = 24\<rparr>]"
    by (simp add: three_sections_def make_root_cylindrical_block_def)
  have e7: "changed_design script_modifiers three_sections =
     Inr [\<lparr>radius = 0, twist = - 54, chord = 4, rel_thickness = 100\<rparr>,
          \<lparr>radius = 50, twist = 5, chord = 4, rel_thickness = 50\<rparr>,
          \<lparr>radius = 100, twist = 0, chord = 3, rel_thickness = 24\<rparr>]"
    by (simp add: changed_design_def radius_nd_def modifier_blocks_def run_blocks_def
        block_list_def when_enabled_def script_modifiers_def three_sections_def
        root_linear_chord_block_def supertwist_the_root_block_def)
  from modifiers_write_own_column[where cfg = script_modifiers and geo_mat = three_sections
      and working_mat = "[\<lparr>radius = 0, twist = - 54, chord = 4, rel_thickness = 100\<rparr>,
          \<lparr>radius = 50, twist = 5, chord = 4, rel_thickness = 50\<rparr>,
          \<lparr>radius = 100, twist = 0, chord = 3, rel_thickness = 24\<rparr>]"] e7
  have "radius_nd [\<lparr>radius = 0, twist = - 54, chord = 4, rel_thickness = 100\<rparr>,
          \<lparr>radius = 50, twist = 5, chord = 4, rel_thickness = 50\<rparr>,
          \<lparr>radius = 100, twist = 0, chord = 3, rel_thickness = 24\<rparr>] = radius_nd three_sections"
    by blast
  with e1 e2 e3 e4 e5 e6 e7 show ?thesis by simp
qed

section \<open>All amounts zero\<close>

lemma root_linear_chord_block_zero:
  "root_linear_chord_block 0 t rnd w = Inr w' \<Longrightarrow> w' = w"
  unfolding root_linear_chord_block_def Let_def root_linear_chord_loop_sel
  by (erule sel_loop_identity) simp

lemma tip_cos_chord_block_zero:
  "tip_cos_chord_block 0 t rnd w = Inr w' \<Longrightarrow> w' = w"
  unfolding tip_cos_chord_block_def Let_def tip_cos_chord_loop_sel
  by (erule sel_loop_identity) simp

lemma cos_chord_block_zero:
  "cos_chord_block 0 rnd w = Inr w' \<Longrightarrow> w' = w"
  by (auto simp: cos_chord_block_def Let_def split: if_splits intro!: nth_equalityI)

lemma twist_the_root_block_zero:
  "twist_the_root_block 0 t rnd w = Inr w' \<Longrightarrow> w' = w"
  unfolding twist_the_root_block_def Let_def twist_the_root_loop_sel
  by (erule sel_loop_identity) simp

lemma supertwist_the_root_block_zero:
  "supertwist_the_root_block 0 t weights rnd w = Inr w' \<Longrightarrow> w' = w"
  unfolding supertwist_the_root_block_def supertwist_the_root_loop_sel
  by (erule sel_loop_identity) simp

lemma make_root_cylindrical_block_idempotent:
  "make_root_cylindrical_block t rnd w = Inr w' \<Longrightarrow> make_root_cylindrical_block t rnd w' = Inr w'"
  unfolding make_root_cylindrical_block_def make_root_cylindrical_loop_sel
  by (erule sel_loop_idempotent) simp

lemma root_linear_chord_block_same_length:
  "root_linear_chord_block a t rnd w = Inr w' \<Longrightarrow> length u = length w \<Longrightarrow>
   \<exists>u'. root_linear_chord_block a t rnd u = Inr u'"
  unfolding root_linear_chord_block_def Let_def root_linear_chord_loop_sel
  by (rule sel_loop_same_length_ok)

lemma tip_cos_chord_block_same_length:
  "tip_cos_chord_block a t rnd w = Inr w' \<Longrightarrow> length u = length w \<Longrightarrow>
   \<exists>u'. tip_cos_chord_block a t rnd u = Inr u'"
  unfolding tip_cos_chord_block_def Let_def tip_cos_chord_loop_sel
  by (rule sel_loop_same_length_ok)

lemma cos_chord_block_same_length:
  "cos_chord_block a rnd w = Inr w' \<Longrightarrow> length u = length w \<Longrightarrow>
   \<exists>u'. cos_chord_block a rnd u = Inr u'"
  by (auto simp: cos_chord_block_def Let_def split: if_splits)

lemma twist_the_root_block_same_length:
  "twist_the_root_block a t rnd w = Inr w' \<Longrightarrow> length u = length w \<Longrightarrow>
   \<exists>u'. twist_the_root_block a t rnd u = Inr u'"
  unfolding twist_the_root_block_def Let_def twist_the_root_loop_sel
  by (rule sel_loop_same_length_ok)

lemma supertwist_the_root_block_same_length:
  "supertwist_the_root_block a t weights rnd w = Inr w' \<Longrightarrow> length u = length w \<Longrightarrow>
   \<exists>u'. supertwist_the_root_block a t weights rnd u = Inr u'"
  unfolding supertwist_the_root_block_def supertwist_the_root_loop_sel
  by (rule sel_loop_same_length_ok)

text \<open>A block that can only return its argument is skipped or returns it.\<close>

lemma run_blocks_neutral_back:
  assumes "run_blocks ((flag, block) # rest) (Inr u) = Inr w"
    and "\<And>u'. block u = Inr u' \<Longrightarrow> u' = u"
  shows "run_blocks rest (Inr u) = Inr w \<and> (flag \<longrightarrow> block u = Inr u)"
proof (cases flag)
  case False
  with assms(1) show ?thesis by (simp add: run_blocks_Cons when_enabled_def)
next
  case True
  show ?thesis
  proof (cases "block u")
    case (Inl e)
    with True assms(1) show ?thesis
      by (simp add: run_blocks_Cons when_enabled_def run_blocks_Inl)
  next
    case (Inr u')
    with assms(2) have "u' = u" by simp
    with Inr True assms(1) show ?thesis by (simp add: run_blocks_Cons when_enabled_def)
  qed
qed

lemma run_blocks_neutral_forth:
  assumes "flag \<longrightarrow> block u = Inr u"
  shows "run_blocks ((flag, block) # rest) (Inr u) = run_blocks rest (Inr u)"
  using assms by (simp add: run_blocks_Cons when_enabled_def)

lemma zero_amount_blocks:
  assumes zero: "root_chord_addition cfg = 0" "tip_chord_addition cfg = 0"
      "cos_chord_amount cfg = 0" "root_twist_addition cfg = 0" "supertwist_addition cfg = 0"
    and run: "modifier_blocks cfg rnd g = Inr w"
  shows "(if make_root_cylindrical cfg
          then make_root_cylindrical_block (cylindrical_changes_until cfg) rnd g = Inr w
          else w = g) \<and>
         modifier_blocks cfg rnd w = Inr w"
proof -
  let ?b1 = "root_linear_chord_block (root_chord_addition cfg) (root_chord_changes_until cfg) rnd"
  let ?b2 = "tip_cos_chord_block (tip_chord_addition cfg) (tip_changes_from cfg) rnd"
  let ?b3 = "cos_chord_block (cos_chord_amount cfg) rnd"
  let ?b4 = "twist_the_root_block (root_twist_addition cfg) (root_twist_changes_until cfg) rnd"
  let ?b5 = "supertwist_the_root_block (supertwist_addition cfg) (supertwist_changes_until cfg)
               (manual_multiplier cfg) rnd"
  let ?b6 = "make_root_cylindrical_block (cylindrical_changes_until cfg) rnd"
  have id1: "\<And>u u'. ?b1 u = Inr u' \<Longrightarrow> u' = u"
    using zero(1) root_linear_chord_block_zero by simp
  have id2: "\<And>u u'. ?b2 u = Inr u' \<Longrightarrow> u' = u"
    using zero(2) tip_cos_chord_block_zero by simp
  have id3: "\<And>u u'. ?b3 u = Inr u' \<Longrightarrow> u' = u"
    using zero(3) cos_chord_block_zero by simp
  have id4: "\<And>u u'. ?b4 u = Inr u' \<Longrightarrow> u' = u"
    using zero(4) twist_the_root_block_zero by simp
  have id5: "\<And>u u'. ?b5 u = Inr u' \<Longrightarrow> u' = u"
    using zero(5) supertwist_the_root_block_zero by simp
  note r0 = run[unfolded modifier_blocks_def block_list_def]
  note r1 = run_blocks_neutral_back[OF r0 id1]
  note r2 = run_blocks_neutral_back[OF r1[THEN conjunct1] id2]
  note r3 = run_blocks_neutral_back[OF r2[THEN conjunct1] id3]
  note r4 = run_blocks_neutral_back[OF r3[THEN conjunct1] id4]
  note r5 = run_blocks_neutral_back[OF r4[THEN conjunct1] id5]
  from r5 have last: "when_enabled (make_root_cylindrical cfg) ?b6 (Inr g) = Inr w"
    by (simp add: run_blocks_Cons run_blocks_Nil)
  then have cyl: "if make_root_cylindrical cfg then ?b6 g = Inr w else w = g"
    by (auto simp: when_enabled_def split: if_splits)
  have len: "length w = length g"
    using cyl make_root_cylindrical_block_columns(1)[of "cylindrical_changes_until cfg" rnd g w]
    by (auto split: if_splits dest: arg_cong[where f = length])
  have f1: "root_linear_chord_addition cfg \<longrightarrow> ?b1 w = Inr w"
    using r1 root_linear_chord_block_same_length[OF _ len] id1 by blast
  have f2: "tip_cos_chord_addition cfg \<longrightarrow> ?b2 w = Inr w"
    using r2 tip_cos_chord_block_same_length[OF _ len] id2 by blast
  have f3: "cos_chord_addition cfg \<longrightarrow> ?b3 w = Inr w"
    using r3 cos_chord_block_same_length[OF _ len] id3 by blast
  have f4: "twist_the_root cfg \<longrightarrow> ?b4 w = Inr w"
    using r4 twist_the_root_block_same_length[OF _ len] id4 by blast
  have f5: "supertwist_the_root cfg \<longrightarrow> ?b5 w = Inr w"
    using r5 supertwist_the_root_block_same_length[OF _ len] id5 by blast
  have f6: "make_root_cylindrical cfg \<longrightarrow> ?b6 w = Inr w"
    using cyl make_root_cylindrical_block_idempotent by (auto split: if_splits)
  have "modifier_blocks cfg rnd w = Inr w"
    unfolding modifier_blocks_def block_list_def
    by (simp only: run_blocks_neutral_forth[where block = "?b1" and u = w, OF f1]
        run_blocks_neutral_forth[where block = "?b2" and u = w, OF f2]
        run_blocks_neutral_forth[where block = "?b3" and u = w, OF f3]
        run_blocks_neutral_forth[where block = "?b4" and u = w, OF f4]
        run_blocks_neutral_forth[where block = "?b5" and u = w, OF f5]
        run_blocks_neutral_forth[where block = "?b6" and u = w, OF f6] run_blocks_Nil)
  with cyl show ?thesis by simp
qed

text \<open>
  C8, as the script has it. With the five amounts zero and whatever the switches, a run
  that returns leaves the radius, twist and chord columns as they were, and has done what
  the cylindrical override alone does: nothing when that override is off, the thickness
  set to 100 on the sections at or below its threshold when it is on. A second run on the
  result returns the result.
\<close>

theorem zero_amount_modifiers:
  assumes "root_chord_addition cfg = 0" and "tip_chord_addition cfg = 0"
    and "cos_chord_amount cfg = 0" and "root_twist_addition cfg = 0"
    and "supertwist_addition cfg = 0"
    and "changed_design cfg geo_mat = Inr working_mat"
  shows "map radius working_mat = map radius geo_mat \<and>
         map twist working_mat = map twist geo_mat \<and>
         map chord working_mat = map chord geo_mat \<and>
         (if make_root_cylindrical cfg
          then \<exists>rnd. radius_nd geo_mat = Inr rnd \<and>
                 make_root_cylindrical_block (cylindrical_changes_until cfg) rnd geo_mat =
                   Inr working_mat
          else working_mat = geo_mat) \<and>
         changed_design cfg working_mat = Inr working_mat"
proof -
  from assms(6) obtain rnd where rnd: "radius_nd geo_mat = Inr rnd"
    and run: "modifier_blocks cfg rnd geo_mat = Inr working_mat"
    by (auto simp: changed_design_def split: sum.splits)
  note z = zero_amount_blocks[OF assms(1-5) run]
  have cols: "map radius working_mat = map radius geo_mat \<and>
      map twist working_mat = map twist geo_mat \<and> map chord working_mat = map chord geo_mat"
    using z[THEN conjunct1]
      make_root_cylindrical_block_columns[of "cylindrical_changes_until cfg" rnd geo_mat
        working_mat]
    by (cases "make_root_cylindrical cfg") simp_all
  have "radius_nd working_mat = Inr rnd"
    using radius_nd_cong[OF modifier_blocks_radius[OF run]] rnd by simp
  then have again: "changed_design cfg working_mat = Inr working_mat"
    using z by (simp add: changed_design_def)
  have "if make_root_cylindrical cfg
        then \<exists>rnd. radius_nd geo_mat = Inr rnd \<and>
               make_root_cylindrical_block (cylindrical_changes_until cfg) rnd geo_mat =
                 Inr working_mat
        else working_mat = geo_mat"
    using z[THEN conjunct1] rnd by (cases "make_root_cylindrical cfg") simp_all
  with cols again show ?thesis by simp
qed

theorem zero_amount_modifiers_witness:
  "root_chord_addition zero_amounts = 0 \<and> tip_chord_addition zero_amounts = 0 \<and>
   cos_chord_amount zero_amounts = 0 \<and> root_twist_addition zero_amounts = 0 \<and>
   supertwist_addition zero_amounts = 0 \<and>
   changed_design zero_amounts two_sections =
     Inr [\<lparr>radius = 10, twist = 10, chord = 5, rel_thickness = 100\<rparr>,
          \<lparr>radius = 100, twist = 0, chord = 3, rel_thickness = 24\<rparr>] \<and>
   changed_design zero_amounts
     [\<lparr>radius = 10, twist = 10, chord = 5, rel_thickness = 100\<rparr>,
      \<lparr>radius = 100, twist = 0, chord = 3, rel_thickness = 24\<rparr>] =
     Inr [\<lparr>radius = 10, twist = 10, chord = 5, rel_thickness = 100\<rparr>,
          \<lparr>radius = 100, twist = 0, chord = 3, rel_thickness = 24\<rparr>]"
proof -
  have z: "root_chord_addition zero_amounts = 0" "tip_chord_addition zero_amounts = 0"
    "cos_chord_amount zero_amounts = 0" "root_twist_addition zero_amounts = 0"
    "supertwist_addition zero_amounts = 0"
    by (simp_all add: zero_amounts_def)
  have run: "changed_design zero_amounts two_sections =
     Inr [\<lparr>radius = 10, twist = 10, chord = 5, rel_thickness = 100\<rparr>,
          \<lparr>radius = 100, twist = 0, chord = 3, rel_thickness = 24\<rparr>]"
    by (simp add: changed_design_def radius_nd_def modifier_blocks_def run_blocks_def
        block_list_def when_enabled_def zero_amounts_def script_modifiers_def two_sections_def
        root_linear_chord_block_def tip_cos_chord_block_def cos_chord_block_def
        twist_the_root_block_def supertwist_the_root_block_def make_root_cylindrical_block_def)
  from zero_amount_modifiers[OF z run] z run show ?thesis by simp
qed

text \<open>
  With every switch on and every amount zero, the thickness of the first of two sections
  goes from 50 to 100: the run is no no-op on the thickness column.
\<close>

theorem zero_amount_counterexample:
  "changed_design zero_amounts two_sections =
     Inr [\<lparr>radius = 10, twist = 10, chord = 5, rel_thickness = 100\<rparr>,
          \<lparr>radius = 100, twist = 0, chord = 3, rel_thickness = 24\<rparr>] \<and>
   changed_design zero_amounts two_sections \<noteq> Inr two_sections"
  by (simp add: changed_design_def radius_nd_def modifier_blocks_def run_blocks_def
      block_list_def when_enabled_def zero_amounts_def script_modifiers_def two_sections_def
      root_linear_chord_block_def tip_cos_chord_block_def cos_chord_block_def
      twist_the_root_block_def supertwist_the_root_block_def make_root_cylindrical_block_def)

section \<open>The baseline under the modifiers\<close>

lemma run_blocks_in_place_Inl: "run_blocks_in_place blocks a (Inl e) = Inl e"
  by (induction blocks) (auto simp: run_blocks_in_place_def)

lemma run_blocks_in_place_Cons:
  "run_blocks_in_place ((flag, block) # rest) a (Inr s) =
     run_blocks_in_place rest a (if flag then in_place block a s else Inr s)"
  by (simp add: run_blocks_in_place_def)

lemma run_blocks_in_place_eq:
  "run_blocks_in_place blocks a (Inr s) =
     (case run_blocks blocks (Inr (arrays s a)) of
        Inl e \<Rightarrow> Inl e
      | Inr m \<Rightarrow> Inr (s\<lparr>arrays := (arrays s)(a := m)\<rparr>))"
proof (induction blocks arbitrary: s)
  case Nil
  then show ?case by (simp add: run_blocks_in_place_def run_blocks_def)
next
  case (Cons fb rest)
  obtain flag block where fb: "fb = (flag, block)" by (cases fb)
  show ?case
  proof (cases "flag")
    case False
    then show ?thesis using Cons.IH[of s]
      by (simp add: fb run_blocks_in_place_Cons run_blocks_Cons when_enabled_def)
  next
    case True
    show ?thesis
    proof (cases "block (arrays s a)")
      case (Inl e)
      with True show ?thesis
        by (simp add: fb run_blocks_in_place_Cons run_blocks_Cons when_enabled_def in_place_def
            run_blocks_in_place_Inl run_blocks_Inl)
    next
      case (Inr m)
      have "run_blocks_in_place rest a (Inr (s\<lparr>arrays := (arrays s)(a := m)\<rparr>)) =
          (case run_blocks rest (Inr m) of
             Inl e \<Rightarrow> Inl e
           | Inr m' \<Rightarrow> Inr (s\<lparr>arrays := (arrays s)(a := m')\<rparr>))"
        by (simp add: Cons.IH split: sum.splits)
      with True Inr show ?thesis
        by (simp add: fb run_blocks_in_place_Cons run_blocks_Cons when_enabled_def in_place_def)
    qed
  qed
qed

text \<open>
  C4. Let \<^verbatim>\<open>geo_mat\<close> name an array of the store. For every setting of the switches, when
  the modifiers have run, \<^verbatim>\<open>working_mat\<close> names another array than \<^verbatim>\<open>geo_mat\<close>, the array of
  \<^verbatim>\<open>geo_mat\<close> and every array other than that of \<^verbatim>\<open>working_mat\<close> hold what they held, and
  the array of \<^verbatim>\<open>working_mat\<close> holds the changed design.
\<close>

theorem baseline_not_mutated:
  assumes "geo_mat < lim s"
    and "changing_the_design cfg geo_mat s = Inr (working_mat, s')"
  shows "working_mat \<noteq> geo_mat \<and> arrays s' geo_mat = arrays s geo_mat \<and>
         (\<forall>a. a \<noteq> working_mat \<longrightarrow> arrays s' a = arrays s a) \<and>
         changed_design cfg (arrays s geo_mat) = Inr (arrays s' working_mat)"
proof -
  from assms(2) obtain rnd where rnd: "radius_nd (arrays s geo_mat) = Inr rnd"
    by (auto simp: changing_the_design_def split: sum.splits)
  let ?s1 = "s\<lparr>arrays := (arrays s)(lim s := arrays s geo_mat), lim := Suc (lim s)\<rparr>"
  from assms(2) rnd have wm: "working_mat = lim s"
    and run: "run_blocks_in_place (block_list cfg rnd) (lim s) (Inr ?s1) = Inr s'"
    by (auto simp: changing_the_design_def np_copy_def split: sum.splits)
  from run obtain m where m: "run_blocks (block_list cfg rnd) (Inr (arrays s geo_mat)) = Inr m"
    and s': "s' = ?s1\<lparr>arrays := (arrays ?s1)(lim s := m)\<rparr>"
    by (auto simp: run_blocks_in_place_eq split: sum.splits)
  have "changed_design cfg (arrays s geo_mat) = Inr m"
    using rnd m by (simp add: changed_design_def modifier_blocks_def)
  then show ?thesis using assms(1) wm s' by auto
qed

theorem baseline_not_mutated_witness:
  "(0::nat) < lim (baseline_store three_sections) \<and>
   changing_the_design script_modifiers 0 (baseline_store three_sections) =
     Inr (1, \<lparr>arrays = (\<lambda>a. [])(0 := three_sections,
                 1 := [\<lparr>radius = 0, twist = - 54, chord = 4, rel_thickness = 100\<rparr>,
                       \<lparr>radius = 50, twist = 5, chord = 4, rel_thickness = 50\<rparr>,
                       \<lparr>radius = 100, twist = 0, chord = 3, rel_thickness = 24\<rparr>]),
              lim = 2\<rparr>) \<and>
   arrays \<lparr>arrays = (\<lambda>a. [])(0 := three_sections,
                 1 := [\<lparr>radius = 0, twist = - 54, chord = 4, rel_thickness = 100\<rparr>,
                       \<lparr>radius = 50, twist = 5, chord = 4, rel_thickness = 50\<rparr>,
                       \<lparr>radius = 100, twist = 0, chord = 3, rel_thickness = 24\<rparr>]),
              lim = 2\<rparr> 0 = three_sections"
proof -
  have l: "(0::nat) < lim (baseline_store three_sections)"
    by (simp add: baseline_store_def)
  have run: "changing_the_design script_modifiers 0 (baseline_store three_sections) =
     Inr (1, \<lparr>arrays = (\<lambda>a. [])(0 := three_sections,
                 1 := [\<lparr>radius = 0, twist = - 54, chord = 4, rel_thickness = 100\<rparr>,
                       \<lparr>radius = 50, twist = 5, chord = 4, rel_thickness = 50\<rparr>,
                       \<lparr>radius = 100, twist = 0, chord = 3, rel_thickness = 24\<rparr>]),
              lim = 2\<rparr>)"
    by (simp add: changing_the_design_def baseline_store_def radius_nd_def np_copy_def
        run_blocks_in_place_def block_list_def in_place_def script_modifiers_def
        three_sections_def root_linear_chord_block_def supertwist_the_root_block_def)
  from baseline_not_mutated[OF l run] l run show ?thesis
    by (simp add: baseline_store_def)
qed

section \<open>The twist resampling\<close>

lemma bisect_bracket:
  assumes "imin \<le> imax" and "imax \<le> length arr"
    and "(imin < length arr \<and> arr ! imin \<le> key) \<or> (1 \<le> imin \<and> arr ! (imin - 1) \<le> key)"
    and "imax = length arr \<or> key < arr ! imax"
  shows "1 \<le> bisect key arr imin imax \<and> bisect key arr imin imax \<le> length arr \<and>
         arr ! (bisect key arr imin imax - 1) \<le> key \<and>
         (bisect key arr imin imax = length arr \<or> key < arr ! bisect key arr imin imax)"
  using assms
proof (induction key arr imin imax rule: bisect.induct)
  case (1 key arr imin imax)
  show ?case
  proof (cases "imin < imax")
    case False
    with "1.prems"(1) have eq: "imin = imax" by simp
    have b: "bisect key arr imin imax = imin" using False by (simp add: bisect.simps)
    from "1.prems"(3,4) eq "1.prems"(2) have "1 \<le> imin \<and> arr ! (imin - 1) \<le> key"
      by auto
    then show ?thesis using b eq "1.prems"(2,4) by auto
  next
    case True
    define imid where "imid = imin + (imax - imin) div 2"
    have mid: "imin \<le> imid" "imid < imax" using True by (simp_all add: imid_def)
    show ?thesis
    proof (cases "key \<ge> arr ! imid")
      case ge: True
      have b: "bisect key arr imin imax = bisect key arr (imid + 1) imax"
        using True ge by (subst bisect.simps) (simp add: imid_def Let_def)
      have "1 \<le> bisect key arr (imid + 1) imax \<and> bisect key arr (imid + 1) imax \<le> length arr \<and>
         arr ! (bisect key arr (imid + 1) imax - 1) \<le> key \<and>
         (bisect key arr (imid + 1) imax = length arr \<or>
          key < arr ! bisect key arr (imid + 1) imax)"
      proof (rule "1.IH"(1)[OF True imid_def ge])
        show "imid + 1 \<le> imax" using mid by simp
        show "imax \<le> length arr" by (rule "1.prems"(2))
        show "(imid + 1 < length arr \<and> arr ! (imid + 1) \<le> key) \<or>
              (1 \<le> imid + 1 \<and> arr ! (imid + 1 - 1) \<le> key)" using ge by simp
        show "imax = length arr \<or> key < arr ! imax" by (rule "1.prems"(4))
      qed
      then show ?thesis by (simp only: b)
    next
      case lt: False
      have b: "bisect key arr imin imax = bisect key arr imin imid"
        using True lt by (subst bisect.simps) (simp add: imid_def Let_def)
      have "1 \<le> bisect key arr imin imid \<and> bisect key arr imin imid \<le> length arr \<and>
         arr ! (bisect key arr imin imid - 1) \<le> key \<and>
         (bisect key arr imin imid = length arr \<or> key < arr ! bisect key arr imin imid)"
      proof (rule "1.IH"(2)[OF True imid_def lt])
        show "imin \<le> imid" using mid by simp
        show "imid \<le> length arr" using mid "1.prems"(2) by simp
        show "(imin < length arr \<and> arr ! imin \<le> key) \<or> (1 \<le> imin \<and> arr ! (imin - 1) \<le> key)"
          by (rule "1.prems"(3))
        show "imid = length arr \<or> key < arr ! imid" using lt by simp
      qed
      then show ?thesis by (simp only: b)
    qed
  qed
qed


lemma linear_search_bracket:
  assumes "arr \<noteq> []" and "arr ! 0 \<le> (key::real)"
  shows "length (takeWhile (\<lambda>a. key \<ge> a) (tl arr)) < length arr \<and>
         arr ! length (takeWhile (\<lambda>a. key \<ge> a) (tl arr)) \<le> key \<and>
         (length (takeWhile (\<lambda>a. key \<ge> a) (tl arr)) + 1 < length arr \<longrightarrow>
            key < arr ! (length (takeWhile (\<lambda>a. key \<ge> a) (tl arr)) + 1))"
proof -
  define n where "n = length (takeWhile (\<lambda>a. key \<ge> a) (tl arr))"
  have n_le: "n \<le> length (tl arr)" unfolding n_def by (rule length_takeWhile_le)
  have tl_nth: "\<And>i. i < length (tl arr) \<Longrightarrow> tl arr ! i = arr ! Suc i" by (rule nth_tl)
  have c1: "n < length arr" using n_le assms(1) by (cases arr) simp_all
  have c2: "arr ! n \<le> key"
  proof (cases n)
    case 0
    then show ?thesis using assms(2) by simp
  next
    case (Suc m)
    then have m: "m < length (takeWhile (\<lambda>a. key \<ge> a) (tl arr))" by (simp add: n_def)
    then have "takeWhile (\<lambda>a. key \<ge> a) (tl arr) ! m \<in> set (takeWhile (\<lambda>a. key \<ge> a) (tl arr))"
      by (rule nth_mem)
    then have "key \<ge> takeWhile (\<lambda>a. key \<ge> a) (tl arr) ! m" by (rule set_takeWhileD[THEN conjunct2])
    then have "key \<ge> tl arr ! m" using takeWhile_nth[OF m] by simp
    moreover have "m < length (tl arr)" using m n_le by (simp add: n_def)
    ultimately show ?thesis using tl_nth Suc by simp
  qed
  have c3: "key < arr ! (n + 1)" if "n + 1 < length arr"
  proof -
    from that have lt: "n < length (tl arr)" by simp
    then have "\<not> key \<ge> tl arr ! n"
      unfolding n_def by (rule nth_length_takeWhile)
    then show ?thesis using tl_nth[OF lt] by (simp add: not_le)
  qed
  show ?thesis using c1 c2 c3 unfolding n_def by blast
qed

lemma bracket_of_nat:
  assumes "m < length arr" and "arr ! m \<le> key"
    and "m + 1 < length arr \<longrightarrow> key < arr ! (m + 1)"
  shows "bracket arr key (int m)"
  using assms by (simp add: bracket_def)

lemma bracket_bisect:
  assumes "imin \<le> imax" and "imax \<le> length arr"
    and "(imin < length arr \<and> arr ! imin \<le> key) \<or> (1 \<le> imin \<and> arr ! (imin - 1) \<le> key)"
    and "imax = length arr \<or> key < arr ! imax"
  shows "bracket arr key (int (bisect key arr imin imax) - 1)"
proof -
  define m where "m = bisect key arr imin imax"
  note bb = bisect_bracket[OF assms, folded m_def]
  have m1: "1 \<le> m" by (rule bb[THEN conjunct1])
  have m2: "m \<le> length arr" by (rule bb[THEN conjunct2, THEN conjunct1])
  have m3: "arr ! (m - 1) \<le> key" by (rule bb[THEN conjunct2, THEN conjunct2, THEN conjunct1])
  have m4: "m = length arr \<or> key < arr ! m"
    by (rule bb[THEN conjunct2, THEN conjunct2, THEN conjunct2])
  have eq: "int m - 1 = int (m - 1)" using m1 by simp
  have "bracket arr key (int (m - 1))"
  proof (rule bracket_of_nat)
    show "m - 1 < length arr" using m1 m2 by simp
    show "arr ! (m - 1) \<le> key" by (rule m3)
    show "m - 1 + 1 < length arr \<longrightarrow> key < arr ! (m - 1 + 1)" using m1 m4 by auto
  qed
  then show ?thesis unfolding m_def[symmetric] eq .
qed

lemma binary_search_with_guess_bracket:
  assumes ne: "arr \<noteq> []" and hi: "\<not> key > arr ! (length arr - 1)" and lo: "\<not> key < arr ! 0"
  shows "bracket arr key (binary_search_with_guess key arr guess)"
proof (cases "length arr \<le> 4")
  case True
  have "binary_search_with_guess key arr guess =
      int (length (takeWhile (\<lambda>a. key \<ge> a) (tl arr)))"
    using True hi lo by (simp add: binary_search_with_guess_def Let_def)
  moreover have "bracket arr key (int (length (takeWhile (\<lambda>a. key \<ge> a) (tl arr))))"
    by (rule bracket_of_nat) (use linear_search_bracket[OF ne, of key] lo in auto)
  ultimately show ?thesis by simp
next
  case False
  then have len: "5 \<le> length arr" by simp
  define g1 where "g1 = (if guess > int (length arr) - 3 then int (length arr) - 3 else guess)"
  define g where "g = nat (if g1 < 1 then 1 else g1)"
  have g: "1 \<le> g" "g + 2 < length arr"
    using len by (auto simp: g_def g1_def)
  have unfold: "binary_search_with_guess key arr guess =
     (if key < arr ! g then
        (if key < arr ! (g - 1) then
           int (bisect key arr
                  (if g > LIKELY_IN_CACHE_SIZE \<and> key \<ge> arr ! (g - LIKELY_IN_CACHE_SIZE)
                   then g - LIKELY_IN_CACHE_SIZE else 0) (g - 1)) - 1
         else int g - 1)
      else if key < arr ! (g + 1) then int g
      else if key < arr ! (g + 2) then int g + 1
      else int (bisect key arr (g + 2)
                  (if g + LIKELY_IN_CACHE_SIZE + 1 < length arr \<and>
                      key < arr ! (g + LIKELY_IN_CACHE_SIZE)
                   then g + LIKELY_IN_CACHE_SIZE else length arr)) - 1)"
    unfolding binary_search_with_guess_def Let_def g1_def[symmetric] g_def[symmetric]
    using False hi lo by (simp only: if_False)
  consider (a) "key < arr ! g" "key < arr ! (g - 1)"
    | (b) "key < arr ! g" "\<not> key < arr ! (g - 1)"
    | (c) "\<not> key < arr ! g" "key < arr ! (g + 1)"
    | (d) "\<not> key < arr ! g" "\<not> key < arr ! (g + 1)" "key < arr ! (g + 2)"
    | (e) "\<not> key < arr ! g" "\<not> key < arr ! (g + 1)" "\<not> key < arr ! (g + 2)"
    by blast
  then show ?thesis
  proof cases
    case a
    let ?imin = "if g > LIKELY_IN_CACHE_SIZE \<and> key \<ge> arr ! (g - LIKELY_IN_CACHE_SIZE)
                 then g - LIKELY_IN_CACHE_SIZE else 0"
    have "bracket arr key (int (bisect key arr ?imin (g - 1)) - 1)"
    proof (rule bracket_bisect)
      show "?imin \<le> g - 1" using g by (auto simp: LIKELY_IN_CACHE_SIZE_def)
      show "g - 1 \<le> length arr" using g by simp
      show "(?imin < length arr \<and> arr ! ?imin \<le> key) \<or> (1 \<le> ?imin \<and> arr ! (?imin - 1) \<le> key)"
      proof (cases "g > LIKELY_IN_CACHE_SIZE \<and> key \<ge> arr ! (g - LIKELY_IN_CACHE_SIZE)")
        case True
        then have "?imin = g - LIKELY_IN_CACHE_SIZE" by simp
        moreover have "g - LIKELY_IN_CACHE_SIZE < length arr" using g by simp
        ultimately show ?thesis using True by simp
      next
        case False
        then have "?imin = 0" by auto
        moreover have "0 < length arr" using ne by simp
        moreover have "arr ! 0 \<le> key" using lo by (simp add: not_less)
        ultimately show ?thesis by simp
      qed
      show "g - 1 = length arr \<or> key < arr ! (g - 1)" using a(2) by (rule disjI2)
    qed
    moreover have "binary_search_with_guess key arr guess =
        int (bisect key arr ?imin (g - 1)) - 1"
      using a by (simp only: unfold if_True)
    ultimately show ?thesis by (simp only:)
  next
    case b
    have eq: "int g - 1 = int (g - 1)" using g by simp
    have "bracket arr key (int (g - 1))"
    proof (rule bracket_of_nat)
      show "g - 1 < length arr" using g by simp
      show "arr ! (g - 1) \<le> key" using b(2) by (simp add: not_less)
      have "g - 1 + 1 = g" using g by simp
      then show "g - 1 + 1 < length arr \<longrightarrow> key < arr ! (g - 1 + 1)" using b(1) by simp
    qed
    moreover have "binary_search_with_guess key arr guess = int g - 1"
      using b by (simp only: unfold if_True if_False)
    ultimately show ?thesis by (simp only: eq)
  next
    case c
    have "bracket arr key (int g)"
    proof (rule bracket_of_nat)
      show "g < length arr" using g by simp
      show "arr ! g \<le> key" using c(1) by (simp add: not_less)
      show "g + 1 < length arr \<longrightarrow> key < arr ! (g + 1)" using c(2) by simp
    qed
    moreover have "binary_search_with_guess key arr guess = int g"
      using c by (simp only: unfold if_True if_False)
    ultimately show ?thesis by (simp only:)
  next
    case d
    have eq: "int g + 1 = int (g + 1)" by simp
    have "bracket arr key (int (g + 1))"
    proof (rule bracket_of_nat)
      show "g + 1 < length arr" using g by simp
      show "arr ! (g + 1) \<le> key" using d(2) by (simp add: not_less)
      have "g + 1 + 1 = g + 2" by simp
      then show "g + 1 + 1 < length arr \<longrightarrow> key < arr ! (g + 1 + 1)" using d(3) by simp
    qed
    moreover have "binary_search_with_guess key arr guess = int g + 1"
      using d by (simp only: unfold if_True if_False)
    ultimately show ?thesis by (simp only: eq)
  next
    case e
    let ?imax = "if g + LIKELY_IN_CACHE_SIZE + 1 < length arr \<and>
                    key < arr ! (g + LIKELY_IN_CACHE_SIZE)
                 then g + LIKELY_IN_CACHE_SIZE else length arr"
    have "bracket arr key (int (bisect key arr (g + 2) ?imax) - 1)"
    proof (rule bracket_bisect)
      show "g + 2 \<le> ?imax" using g by (auto simp: LIKELY_IN_CACHE_SIZE_def)
      show "?imax \<le> length arr" by simp
      show "(g + 2 < length arr \<and> arr ! (g + 2) \<le> key) \<or>
            (1 \<le> g + 2 \<and> arr ! (g + 2 - 1) \<le> key)" using e(3) g by (simp add: not_less)
      show "?imax = length arr \<or> key < arr ! ?imax"
        by (cases "g + LIKELY_IN_CACHE_SIZE + 1 < length arr \<and>
                    key < arr ! (g + LIKELY_IN_CACHE_SIZE)") simp_all
    qed
    moreover have "binary_search_with_guess key arr guess =
        int (bisect key arr (g + 2) ?imax) - 1"
      using e by (simp only: unfold if_True if_False)
    ultimately show ?thesis by (simp only:)
  qed
qed


lemma bracket_unique:
  assumes sorted: "sorted_wrt (<) arr" and br: "bracket arr key j"
    and m: "m < length arr" and lo: "arr ! m \<le> key"
    and hi: "Suc m < length arr \<longrightarrow> key < arr ! Suc m"
  shows "j = int m"
proof -
  define n where "n = nat j"
  from br have n: "n < length arr" "arr ! n \<le> key" "Suc n < length arr \<longrightarrow> key < arr ! Suc n"
    and j: "j = int n"
    by (auto simp: bracket_def n_def split: if_splits)
  have "\<not> n < m"
  proof
    assume lt: "n < m"
    then have "Suc n < length arr" using m by simp
    with n(3) have k: "key < arr ! Suc n" by simp
    have "arr ! Suc n \<le> arr ! m"
    proof (cases "Suc n = m")
      case True
      then show ?thesis by simp
    next
      case False
      with lt have "Suc n < m" by simp
      from sorted_wrt_nth_less[OF sorted this m] show ?thesis by simp
    qed
    with k lo show False by simp
  qed
  moreover have "\<not> m < n"
  proof
    assume lt: "m < n"
    then have "Suc m < length arr" using n(1) by simp
    with hi have k: "key < arr ! Suc m" by simp
    have "arr ! Suc m \<le> arr ! n"
    proof (cases "Suc m = n")
      case True
      then show ?thesis by simp
    next
      case False
      with lt have "Suc m < n" by simp
      from sorted_wrt_nth_less[OF sorted this n(1)] show ?thesis by simp
    qed
    with k n(2) show False by simp
  qed
  ultimately show ?thesis using j by simp
qed

lemma binary_search_with_guess_above:
  "arr ! (length arr - 1) < key \<Longrightarrow> binary_search_with_guess key arr guess = int (length arr)"
  by (simp add: binary_search_with_guess_def)

lemma binary_search_with_guess_below:
  "\<not> arr ! (length arr - 1) < key \<Longrightarrow> key < arr ! 0 \<Longrightarrow>
   binary_search_with_guess key arr guess = - 1"
  by (simp add: binary_search_with_guess_def)

lemma interp_g_above:
  assumes "xp \<noteq> []" and "last xp < x"
  shows "interp_g xp fp g x = fp ! (length xp - 1)"
proof -
  have "xp ! (length xp - 1) < x" using assms by (simp add: last_conv_nth)
  then have "binary_search_with_guess x xp g = int (length xp)"
    by (rule binary_search_with_guess_above)
  then show ?thesis by (simp add: interp_g_def interp_value_def)
qed

lemma interp_g_below:
  assumes "xp \<noteq> []" and "x < hd xp" and "x \<le> last xp"
  shows "interp_g xp fp g x = fp ! 0"
proof -
  have "\<not> xp ! (length xp - 1) < x" "x < xp ! 0"
    using assms by (simp_all add: last_conv_nth hd_conv_nth)
  then have "binary_search_with_guess x xp g = - 1"
    by (rule binary_search_with_guess_below)
  then show ?thesis by (simp add: interp_g_def interp_value_def)
qed

lemma sorted_nth_le_last:
  assumes "sorted_wrt (<) (xp::real list)" and "m < length xp"
  shows "xp ! m \<le> xp ! (length xp - 1)"
proof (cases "m = length xp - 1")
  case True
  then show ?thesis by simp
next
  case False
  with assms(2) have "m < length xp - 1" and "length xp - 1 < length xp" by simp_all
  from sorted_wrt_nth_less[OF assms(1) this] show ?thesis by simp
qed

lemma sorted_first_le_nth:
  assumes "sorted_wrt (<) (xp::real list)" and "m < length xp"
  shows "xp ! 0 \<le> xp ! m"
proof (cases "m = 0")
  case True
  then show ?thesis by simp
next
  case False
  then have "0 < m" by simp
  from sorted_wrt_nth_less[OF assms(1) this assms(2)] show ?thesis by simp
qed

lemma interp_g_knot:
  assumes sorted: "sorted_wrt (<) xp" and m: "m < length xp"
  shows "interp_g xp fp g (xp ! m) = fp ! m"
proof -
  have ne: "xp \<noteq> []" using m by auto
  have hi: "\<not> xp ! m > xp ! (length xp - 1)" using sorted_nth_le_last[OF sorted m] by simp
  have lo: "\<not> xp ! m < xp ! 0" using sorted_first_le_nth[OF sorted m] by simp
  have "binary_search_with_guess (xp ! m) xp g = int m"
  proof (rule bracket_unique[OF sorted binary_search_with_guess_bracket[OF ne hi lo] m])
    show "xp ! m \<le> xp ! m" by simp
    show "Suc m < length xp \<longrightarrow> xp ! m < xp ! Suc m"
      using sorted_wrt_nth_less[OF sorted, of m "Suc m"] by simp
  qed
  moreover have "interp_value xp fp (int m) (xp ! m) = fp ! m"
    using m by (simp add: interp_value_def) (metis nat_int)
  ultimately show ?thesis by (simp only: interp_g_def)
qed

lemma interp_g_linear:
  assumes sorted: "sorted_wrt (<) xp"
    and j: "Suc j < length xp" and lo: "xp ! j \<le> x" and hi: "x \<le> xp ! Suc j"
  shows "interp_g xp fp g x =
           fp ! j + (x - xp ! j) * (fp ! Suc j - fp ! j) / (xp ! Suc j - xp ! j)"
proof (cases "x = xp ! Suc j")
  case True
  have "xp ! j < xp ! Suc j" using sorted_wrt_nth_less[OF sorted, of j "Suc j"] j by simp
  then show ?thesis using interp_g_knot[OF sorted j, of fp g] by (simp add: True)
next
  case False
  with hi have lt: "x < xp ! Suc j" by simp
  have ne: "xp \<noteq> []" using j by auto
  have jl: "j < length xp" using j by simp
  have h: "\<not> x > xp ! (length xp - 1)" using sorted_nth_le_last[OF sorted j] lt by simp
  have l: "\<not> x < xp ! 0" using sorted_first_le_nth[OF sorted jl] lo by simp
  have idx: "binary_search_with_guess x xp g = int j"
    by (rule bracket_unique[OF sorted binary_search_with_guess_bracket[OF ne h l] jl lo])
      (use lt in simp)
  have nl: "int j \<noteq> int (length xp) - 1" using j by simp
  have "interp_g xp fp g x =
      (if xp ! j = x then fp ! j
       else (fp ! Suc j - fp ! j) / (xp ! Suc j - xp ! j) * (x - xp ! j) + fp ! j)"
    using nl j by (simp add: interp_g_def interp_value_def idx Let_def)
  also have "\<dots> = fp ! j + (x - xp ! j) * (fp ! Suc j - fp ! j) / (xp ! Suc j - xp ! j)"
    by simp
  finally show ?thesis .
qed

lemma interp_loop_length: "length (interp_loop xp fp j xs) = length xs"
  by (induction xs arbitrary: j) (simp_all add: Let_def)

lemma interp_loop_nth:
  "k < length xs \<Longrightarrow> \<exists>g. interp_loop xp fp j xs ! k = interp_g xp fp g (xs ! k)"
proof (induction xs arbitrary: j k)
  case Nil
  then show ?case by simp
next
  case (Cons x xs)
  show ?case
  proof (cases k)
    case 0
    then show ?thesis by (auto simp: Let_def interp_g_def)
  next
    case (Suc n)
    with Cons.prems have "n < length xs" by simp
    from Cons.IH[OF this, of "binary_search_with_guess x xp j"] Suc
    show ?thesis by (simp add: Let_def)
  qed
qed

lemma np_interp_Inr:
  assumes "xp \<noteq> []" and "length fp = length xp"
  shows "\<exists>ys. np_interp xs xp fp = Inr ys \<and> length ys = length xs"
  using assms by (simp add: np_interp_def interp_loop_length)

lemma np_interp_nth:
  assumes "np_interp xs xp fp = Inr ys" and "k < length xs"
  shows "\<exists>g. ys ! k = interp_g xp fp g (xs ! k)"
proof (cases "length xp = 1")
  case False
  with assms(1) have "ys = interp_loop xp fp 0 xs"
    by (auto simp: np_interp_def split: if_splits)
  then show ?thesis using interp_loop_nth[OF assms(2)] by simp
next
  case True
  then obtain a where xp: "xp = [a]" by (cases xp) auto
  from assms(1) True have len: "length fp = 1"
    by (auto simp: np_interp_def split: if_splits)
  from assms True have yk: "ys ! k = fp ! 0"
    by (auto simp: np_interp_def split: if_splits)
  have "interp_g xp fp 0 (xs ! k) = fp ! 0"
    by (simp add: interp_g_def interp_value_def binary_search_with_guess_def xp)
  with yk show ?thesis by metis
qed

lemma read_geo_mat_Inr:
  assumes "2 \<le> length ae_data" and "2 \<le> length twist_table"
  shows "\<exists>geo_mat. read_geo_mat ae_data twist_table = Inr geo_mat"
proof -
  have "map fst twist_table \<noteq> []" using assms(2) by auto
  from np_interp_Inr[OF this, of "map snd twist_table" "map fst ae_data"]
  obtain tw where "np_interp (map fst ae_data) (map fst twist_table) (map snd twist_table) = Inr tw"
    by auto
  then show ?thesis using assms by (simp add: read_geo_mat_def)
qed

lemma read_geo_mat_nth:
  assumes "read_geo_mat ae_data twist_table = Inr geo_mat" and "k < length ae_data"
  shows "radius (geo_mat ! k) = fst (ae_data ! k)"
    and "\<exists>g. twist (geo_mat ! k) =
           interp_g (map fst twist_table) (map snd twist_table) g (fst (ae_data ! k))"
    and "chord (geo_mat ! k) = fst (snd (ae_data ! k))"
    and "rel_thickness (geo_mat ! k) = snd (snd (ae_data ! k))"
    and "length geo_mat = length ae_data"
proof -
  from assms(1) obtain tw where
    tw: "np_interp (map fst ae_data) (map fst twist_table) (map snd twist_table) = Inr tw"
    and g: "geo_mat = map (\<lambda>((r, c, t), th).
                            \<lparr>radius = r, twist = th, chord = c, rel_thickness = t\<rparr>)
                       (zip ae_data tw)"
    by (auto simp: read_geo_mat_def split: if_splits sum.splits)
  from assms(1) have "map fst twist_table \<noteq> []"
    by (auto simp: read_geo_mat_def split: if_splits)
  from np_interp_Inr[OF this, of "map snd twist_table" "map fst ae_data"] tw
  have len: "length tw = length ae_data" by simp
  have k': "k < length (map fst ae_data)" using assms(2) by simp
  from np_interp_nth[OF tw k'] assms(2)
  obtain g0 where g0: "tw ! k =
      interp_g (map fst twist_table) (map snd twist_table) g0 (fst (ae_data ! k))"
    by auto
  show "length geo_mat = length ae_data" using len by (simp add: g)
  show "radius (geo_mat ! k) = fst (ae_data ! k)"
    "chord (geo_mat ! k) = fst (snd (ae_data ! k))"
    "rel_thickness (geo_mat ! k) = snd (snd (ae_data ! k))"
    using assms(2) len by (simp_all add: g split_beta)
  have "twist (geo_mat ! k) = tw ! k" using assms(2) len by (simp add: g split_beta)
  with g0 show "\<exists>g. twist (geo_mat ! k) =
           interp_g (map fst twist_table) (map snd twist_table) g (fst (ae_data ! k))"
    by auto
qed

lemma read_geo_mat_length:
  assumes "read_geo_mat ae_data twist_table = Inr geo_mat"
  shows "length geo_mat = length ae_data"
proof -
  from assms obtain tw where
    tw: "np_interp (map fst ae_data) (map fst twist_table) (map snd twist_table) = Inr tw"
    and g: "geo_mat = map (\<lambda>((r, c, t), th).
                            \<lparr>radius = r, twist = th, chord = c, rel_thickness = t\<rparr>)
                       (zip ae_data tw)"
    by (auto simp: read_geo_mat_def split: if_splits sum.splits)
  from assms have "map fst twist_table \<noteq> []"
    by (auto simp: read_geo_mat_def split: if_splits)
  from np_interp_Inr[OF this, of "map snd twist_table" "map fst ae_data"] tw
  have "length tw = length ae_data" by simp
  then show ?thesis by (simp add: g)
qed

text \<open>
  C6, as the script has it. A read with at least two rows in each table returns a matrix,
  whatever the order of the positions in the twist table: nothing tests that order and
  nothing fails on it. When the positions are strictly increasing, the twist of a section
  whose radius lies between two neighbouring positions is the value at that radius of the
  straight line through the two table points.
\<close>

theorem twist_reconciliation:
  assumes "2 \<le> length ae_data" and "2 \<le> length twist_table"
  shows "\<exists>geo_mat. read_geo_mat ae_data twist_table = Inr geo_mat \<and>
           length geo_mat = length ae_data \<and>
           (sorted_wrt (<) (map fst twist_table) \<longrightarrow>
              (\<forall>k j. k < length ae_data \<and> Suc j < length twist_table \<and>
                     fst (twist_table ! j) \<le> fst (ae_data ! k) \<and>
                     fst (ae_data ! k) \<le> fst (twist_table ! Suc j) \<longrightarrow>
                 radius (geo_mat ! k) = fst (ae_data ! k) \<and>
                 twist (geo_mat ! k) =
                   snd (twist_table ! j) +
                   (fst (ae_data ! k) - fst (twist_table ! j)) *
                   (snd (twist_table ! Suc j) - snd (twist_table ! j)) /
                   (fst (twist_table ! Suc j) - fst (twist_table ! j))))"
proof -
  from read_geo_mat_Inr[OF assms] obtain geo_mat where
    g: "read_geo_mat ae_data twist_table = Inr geo_mat" by blast
  have lin: "radius (geo_mat ! k) = fst (ae_data ! k) \<and>
        twist (geo_mat ! k) =
          snd (twist_table ! j) +
          (fst (ae_data ! k) - fst (twist_table ! j)) *
          (snd (twist_table ! Suc j) - snd (twist_table ! j)) /
          (fst (twist_table ! Suc j) - fst (twist_table ! j))"
    if sorted: "sorted_wrt (<) (map fst twist_table)" and k: "k < length ae_data"
      and j: "Suc j < length twist_table"
      and lo: "fst (twist_table ! j) \<le> fst (ae_data ! k)"
      and hi: "fst (ae_data ! k) \<le> fst (twist_table ! Suc j)" for k j
  proof -
    have j': "j < length twist_table" using j by simp
    from read_geo_mat_nth(2)[OF g k] obtain g0 where
      tw: "twist (geo_mat ! k) =
        interp_g (map fst twist_table) (map snd twist_table) g0 (fst (ae_data ! k))"
      by blast
    have "interp_g (map fst twist_table) (map snd twist_table) g0 (fst (ae_data ! k)) =
        map snd twist_table ! j +
        (fst (ae_data ! k) - map fst twist_table ! j) *
        (map snd twist_table ! Suc j - map snd twist_table ! j) /
        (map fst twist_table ! Suc j - map fst twist_table ! j)"
    proof (rule interp_g_linear[OF sorted])
      show "Suc j < length (map fst twist_table)" using j by simp
      show "map fst twist_table ! j \<le> fst (ae_data ! k)" using lo j' by simp
      show "fst (ae_data ! k) \<le> map fst twist_table ! Suc j" using hi j by simp
    qed
    then have "twist (geo_mat ! k) =
          snd (twist_table ! j) +
          (fst (ae_data ! k) - fst (twist_table ! j)) *
          (snd (twist_table ! Suc j) - snd (twist_table ! j)) /
          (fst (twist_table ! Suc j) - fst (twist_table ! j))"
      using tw j j' by (simp only: nth_map)
    with read_geo_mat_nth(1)[OF g k] show ?thesis by (rule conjI)
  qed
  show ?thesis
  proof (intro exI conjI impI allI)
    show "read_geo_mat ae_data twist_table = Inr geo_mat" by (rule g)
    show "length geo_mat = length ae_data" by (rule read_geo_mat_length[OF g])
  next
    fix k j
    assume "sorted_wrt (<) (map fst twist_table)"
      and "k < length ae_data \<and> Suc j < length twist_table \<and>
           fst (twist_table ! j) \<le> fst (ae_data ! k) \<and>
           fst (ae_data ! k) \<le> fst (twist_table ! Suc j)"
    then show "radius (geo_mat ! k) = fst (ae_data ! k)"
      and "twist (geo_mat ! k) =
          snd (twist_table ! j) +
          (fst (ae_data ! k) - fst (twist_table ! j)) *
          (snd (twist_table ! Suc j) - snd (twist_table ! j)) /
          (fst (twist_table ! Suc j) - fst (twist_table ! j))"
      using lin[of k j] by simp_all
  qed
qed

lemmas interp_eval =
  read_geo_mat_def htc_twist_def np_interp_def binary_search_with_guess_def interp_value_def
  Let_def

theorem twist_reconciliation_witness:
  "2 \<le> length three_ae_rows \<and> 2 \<le> length [(0, 10), (100, 0 :: real) :: real \<times> real] \<and>
   sorted_wrt (<) (map fst [(0, 10), (100, 0 :: real) :: real \<times> real]) \<and>
   read_geo_mat three_ae_rows [(0, 10), (100, 0)] = Inr three_sections"
proof -
  have h: "2 \<le> length three_ae_rows" "2 \<le> length [(0, 10), (100, 0 :: real) :: real \<times> real]"
    by (simp_all add: three_ae_rows_def)
  have r: "read_geo_mat three_ae_rows [(0, 10), (100, 0)] = Inr three_sections"
    by (simp add: interp_eval three_ae_rows_def three_sections_def)
  from twist_reconciliation[OF h] h r show ?thesis by simp
qed

text \<open>
  A twist table whose positions decrease, 100 then 0: the read returns, with the twists
  0, 10, 10, and so does not fail with \<open>MalformedInputError\<close>.
\<close>

theorem twist_reconciliation_counterexample:
  "read_geo_mat three_ae_rows [(100, 0), (0, 10)] =
     Inr [\<lparr>radius = 0, twist = 0, chord = 5, rel_thickness = 100\<rparr>,
          \<lparr>radius = 50, twist = 10, chord = 4, rel_thickness = 50\<rparr>,
          \<lparr>radius = 100, twist = 10, chord = 3, rel_thickness = 24\<rparr>] \<and>
   read_geo_mat three_ae_rows [(100, 0), (0, 10)] \<noteq> Inl MalformedInputError"
  by (simp add: interp_eval three_ae_rows_def)

text \<open>
  C10, as the script has it. Both resamplings return whenever they have a sample point: the
  one of the read for tables of at least two rows, the one before the write for a working
  matrix that is not empty. Neither extrapolates. A section whose radius is above the last
  position of the twist table has the last twist of the table. A section whose radius is
  below the first position, and not above the last, has the first twist. In the same way
  a position of the \<^verbatim>\<open>.htc\<close> file above the last radius of the working matrix gets the
  twist of the last section, and one below the first radius, and not above the last, the
  twist of the first section. On sample points in increasing order a query below the
  first one is never above the last.
\<close>

theorem resampling_clamps:
  "(2 \<le> length ae_data \<and> 2 \<le> length twist_table \<longrightarrow>
      (\<exists>geo_mat. read_geo_mat ae_data twist_table = Inr geo_mat \<and>
         (\<forall>k < length ae_data.
            (fst (last twist_table) < fst (ae_data ! k) \<longrightarrow>
               twist (geo_mat ! k) = snd (last twist_table)) \<and>
            (fst (ae_data ! k) < fst (hd twist_table) \<and>
             fst (ae_data ! k) \<le> fst (last twist_table) \<longrightarrow>
               twist (geo_mat ! k) = snd (hd twist_table))))) \<and>
   (working_mat \<noteq> [] \<longrightarrow>
      (\<exists>tw. htc_twist twist_radii working_mat = Inr tw \<and> length tw = length twist_radii \<and>
         (\<forall>k < length twist_radii.
            (radius (last working_mat) < twist_radii ! k \<longrightarrow>
               tw ! k = twist (last working_mat)) \<and>
            (twist_radii ! k < radius (hd working_mat) \<and>
             twist_radii ! k \<le> radius (last working_mat) \<longrightarrow>
               tw ! k = twist (hd working_mat)))))"
proof (intro conjI impI)
  assume a: "2 \<le> length ae_data \<and> 2 \<le> length twist_table"
  then have ne: "twist_table \<noteq> []" by auto
  from a read_geo_mat_Inr obtain geo_mat where
    g: "read_geo_mat ae_data twist_table = Inr geo_mat" by blast
  have "(fst (last twist_table) < fst (ae_data ! k) \<longrightarrow>
               twist (geo_mat ! k) = snd (last twist_table)) \<and>
            (fst (ae_data ! k) < fst (hd twist_table) \<and>
             fst (ae_data ! k) \<le> fst (last twist_table) \<longrightarrow>
               twist (geo_mat ! k) = snd (hd twist_table))" if k: "k < length ae_data" for k
  proof -
    from read_geo_mat_nth(2)[OF g k] obtain g0 where
      tw: "twist (geo_mat ! k) =
        interp_g (map fst twist_table) (map snd twist_table) g0 (fst (ae_data ! k))"
      by blast
    have ne': "map fst twist_table \<noteq> []" using ne by simp
    show ?thesis unfolding tw
      using interp_g_above[OF ne', of "fst (ae_data ! k)" "map snd twist_table" g0]
        interp_g_below[OF ne', of "fst (ae_data ! k)" "map snd twist_table" g0] ne
      by (simp add: last_map hd_map last_conv_nth hd_conv_nth)
  qed
  with g show "\<exists>geo_mat. read_geo_mat ae_data twist_table = Inr geo_mat \<and>
         (\<forall>k < length ae_data.
            (fst (last twist_table) < fst (ae_data ! k) \<longrightarrow>
               twist (geo_mat ! k) = snd (last twist_table)) \<and>
            (fst (ae_data ! k) < fst (hd twist_table) \<and>
             fst (ae_data ! k) \<le> fst (last twist_table) \<longrightarrow>
               twist (geo_mat ! k) = snd (hd twist_table)))"
    by blast
next
  assume ne: "working_mat \<noteq> []"
  then have ne': "map radius working_mat \<noteq> []" by simp
  from np_interp_Inr[OF ne', of "map twist working_mat" twist_radii]
  obtain tw where tw: "htc_twist twist_radii working_mat = Inr tw"
    and len: "length tw = length twist_radii"
    by (auto simp: htc_twist_def)
  have "(radius (last working_mat) < twist_radii ! k \<longrightarrow>
               tw ! k = twist (last working_mat)) \<and>
            (twist_radii ! k < radius (hd working_mat) \<and>
             twist_radii ! k \<le> radius (last working_mat) \<longrightarrow>
               tw ! k = twist (hd working_mat))" if k: "k < length twist_radii" for k
  proof -
    from np_interp_nth[OF tw[unfolded htc_twist_def] k] obtain g0 where
      v: "tw ! k = interp_g (map radius working_mat) (map twist working_mat) g0 (twist_radii ! k)"
      by blast
    show ?thesis unfolding v
      using interp_g_above[OF ne', of "twist_radii ! k" "map twist working_mat" g0]
        interp_g_below[OF ne', of "twist_radii ! k" "map twist working_mat" g0] ne
      by (simp add: last_map hd_map last_conv_nth hd_conv_nth)
  qed
  with tw len show "\<exists>tw. htc_twist twist_radii working_mat = Inr tw \<and>
         length tw = length twist_radii \<and>
         (\<forall>k < length twist_radii.
            (radius (last working_mat) < twist_radii ! k \<longrightarrow>
               tw ! k = twist (last working_mat)) \<and>
            (twist_radii ! k < radius (hd working_mat) \<and>
             twist_radii ! k \<le> radius (last working_mat) \<longrightarrow>
               tw ! k = twist (hd working_mat)))"
    by blast
qed

theorem resampling_clamps_witness:
  "2 \<le> length three_ae_rows \<and> 2 \<le> length [(10, 8), (90, 2 :: real) :: real \<times> real] \<and>
   read_geo_mat three_ae_rows [(10, 8), (90, 2)] =
     Inr [\<lparr>radius = 0, twist = 8, chord = 5, rel_thickness = 100\<rparr>,
          \<lparr>radius = 50, twist = 5, chord = 4, rel_thickness = 50\<rparr>,
          \<lparr>radius = 100, twist = 2, chord = 3, rel_thickness = 24\<rparr>] \<and>
   three_sections \<noteq> [] \<and>
   htc_twist [- 5, 50, 120] three_sections = Inr [10, 5, 0]"
proof -
  have h: "2 \<le> length three_ae_rows \<and> 2 \<le> length [(10, 8), (90, 2 :: real) :: real \<times> real]"
    "three_sections \<noteq> []"
    by (simp_all add: three_ae_rows_def three_sections_def)
  have r: "read_geo_mat three_ae_rows [(10, 8), (90, 2)] =
     Inr [\<lparr>radius = 0, twist = 8, chord = 5, rel_thickness = 100\<rparr>,
          \<lparr>radius = 50, twist = 5, chord = 4, rel_thickness = 50\<rparr>,
          \<lparr>radius = 100, twist = 2, chord = 3, rel_thickness = 24\<rparr>]"
    by (simp add: interp_eval three_ae_rows_def)
  have t: "htc_twist [- 5, 50, 120] three_sections = Inr [10, 5, 0]"
    by (simp add: interp_eval three_sections_def)
  from resampling_clamps[of three_ae_rows "[(10, 8), (90, 2)]" three_sections "[- 5, 50, 120]"]
    h r t
  show ?thesis by simp
qed

text \<open>
  A twist table with the positions 100 and 0 and a section at the radius 60. The radius is
  below the first position and nearer to it than to the last, and the section gets the
  twist 10 of the last position, not the twist 0 of the first.
\<close>

theorem resampling_clamps_counterexample:
  "(60 :: real) < fst (hd [(100, 0), (0, 10 :: real) :: real \<times> real]) \<and>
   \<bar>(60 :: real) - 100\<bar> < \<bar>60 - 0\<bar> \<and>
   read_geo_mat [(0, 5, 100), (60, 4, 50), (100, 3, 24)] [(100, 0), (0, 10)] =
     Inr [\<lparr>radius = 0, twist = 0, chord = 5, rel_thickness = 100\<rparr>,
          \<lparr>radius = 60, twist = 10, chord = 4, rel_thickness = 50\<rparr>,
          \<lparr>radius = 100, twist = 10, chord = 3, rel_thickness = 24\<rparr>]"
  by (simp add: interp_eval)

section \<open>Text files and copies\<close>










lemma path_names_distinct:
  "htc_file_pathname \<noteq> new_htc_filename" "ae_file_pathname \<noteq> new_ae_filename"
  "htc_file_pathname \<noteq> ae_file_pathname" "htc_file_pathname \<noteq> new_ae_filename"
  "ae_file_pathname \<noteq> new_htc_filename" "new_htc_filename \<noteq> new_ae_filename"
  by (simp_all add: htc_file_pathname_def new_htc_filename_def ae_file_pathname_def
      new_ae_filename_def design_name_def)

lemma shutil_copy_None:
  "shutil_copy fault src dst d = (None, d') \<Longrightarrow> \<exists>f. d src = Some f \<and> d' = d(dst \<mapsto> f)"
  by (auto simp: shutil_copy_def split: option.splits if_splits io_fault.splits)

lemma shutil_copy_Some:
  "shutil_copy fault src dst d = (Some e, d') \<Longrightarrow>
     d' = d \<or>
     (\<exists>f n. d src = Some f \<and>
            d' = d(dst \<mapsto> \<lparr>contents = take n (contents f), read_only = False\<rparr>))"
  by (auto simp: shutil_copy_def split: option.splits if_splits io_fault.splits)




section \<open>The rewritten files\<close>





























section \<open>A copy that fails\<close>

text \<open>
  C7, as the script has it. When the first copy fails, the run quits, before any
  rewriting. The disk is then the one before the copy step, but for the new \<^verbatim>\<open>.htc\<close> file
  when the copy had opened it: that file then holds the first bytes of the original, as
  many as were copied, and can be written. When the first copy returns and the second
  fails, the run quits too, before any rewriting. The new \<^verbatim>\<open>.htc\<close> file is then the copy
  of the original, the new \<^verbatim>\<open>ae.dat\<close> file is as it was or holds the first bytes of its
  original, and every other file is as it was.
\<close>

theorem copy_failure_quits:
  "(shutil_copy (faults Copy_htc) htc_file_pathname new_htc_filename d = (Some e, d1) \<longrightarrow>
      creating_the_files str_float linesep faults htc_tw working_mat d = (Quit, d1) \<and>
      (\<forall>name. name \<noteq> new_htc_filename \<longrightarrow> d1 name = d name) \<and>
      (d1 new_htc_filename = d new_htc_filename \<or>
       (\<exists>f n. d htc_file_pathname = Some f \<and>
              d1 new_htc_filename =
                Some \<lparr>contents = take n (contents f), read_only = False\<rparr>))) \<and>
   (shutil_copy (faults Copy_htc) htc_file_pathname new_htc_filename d = (None, d1) \<and>
    shutil_copy (faults Copy_ae) ae_file_pathname new_ae_filename d1 = (Some e, d2) \<longrightarrow>
      creating_the_files str_float linesep faults htc_tw working_mat d = (Quit, d2) \<and>
      d htc_file_pathname \<noteq> None \<and>
      d2 new_htc_filename = d htc_file_pathname \<and>
      (\<forall>name. name \<noteq> new_htc_filename \<and> name \<noteq> new_ae_filename \<longrightarrow> d2 name = d name) \<and>
      (d2 new_ae_filename = d new_ae_filename \<or>
       (\<exists>f n. d ae_file_pathname = Some f \<and>
              d2 new_ae_filename =
                Some \<lparr>contents = take n (contents f), read_only = False\<rparr>)))"
proof (intro conjI impI)
  assume c: "shutil_copy (faults Copy_htc) htc_file_pathname new_htc_filename d = (Some e, d1)"
  then show "creating_the_files str_float linesep faults htc_tw working_mat d = (Quit, d1)"
    by (simp add: creating_the_files_def)
  from shutil_copy_Some[OF c]
  show "\<forall>name. name \<noteq> new_htc_filename \<longrightarrow> d1 name = d name" by auto
  from shutil_copy_Some[OF c]
  show "d1 new_htc_filename = d new_htc_filename \<or>
       (\<exists>f n. d htc_file_pathname = Some f \<and>
              d1 new_htc_filename =
                Some \<lparr>contents = take n (contents f), read_only = False\<rparr>)"
    by auto
next
  assume a: "shutil_copy (faults Copy_htc) htc_file_pathname new_htc_filename d = (None, d1) \<and>
    shutil_copy (faults Copy_ae) ae_file_pathname new_ae_filename d1 = (Some e, d2)"
  then show "creating_the_files str_float linesep faults htc_tw working_mat d = (Quit, d2)"
    by (simp add: creating_the_files_def)
  from a shutil_copy_None obtain f where f: "d htc_file_pathname = Some f"
    and d1: "d1 = d(new_htc_filename \<mapsto> f)" by blast
  from a have c2: "shutil_copy (faults Copy_ae) ae_file_pathname new_ae_filename d1 = (Some e, d2)"
    by simp
  have ae: "d1 ae_file_pathname = d ae_file_pathname" using d1 path_names_distinct by simp
  have na: "d1 new_ae_filename = d new_ae_filename" using d1 path_names_distinct by simp
  show "d htc_file_pathname \<noteq> None" using f by simp
  from shutil_copy_Some[OF c2]
  show "d2 new_htc_filename = d htc_file_pathname"
    using d1 f path_names_distinct by auto
  from shutil_copy_Some[OF c2]
  show "\<forall>name. name \<noteq> new_htc_filename \<and> name \<noteq> new_ae_filename \<longrightarrow> d2 name = d name"
    using d1 by auto
  from shutil_copy_Some[OF c2]
  show "d2 new_ae_filename = d new_ae_filename \<or>
       (\<exists>f n. d ae_file_pathname = Some f \<and>
              d2 new_ae_filename =
                Some \<lparr>contents = take n (contents f), read_only = False\<rparr>)"
    using ae na by auto
qed

theorem copy_failure_quits_witness:
  "shutil_copy (no_faults Copy_htc) htc_file_pathname new_htc_filename locked_htc_disk =
     (Some OSError, locked_htc_disk) \<and>
   creating_the_files str_whole [CR, NL] no_faults [] [] locked_htc_disk =
     (Quit, locked_htc_disk) \<and>
   shutil_copy (no_faults Copy_htc) htc_file_pathname new_htc_filename locked_ae_disk =
     (None, locked_ae_disk(new_htc_filename \<mapsto>
        \<lparr>contents = text_write [CR, NL] (concat htc_example), read_only = False\<rparr>)) \<and>
   shutil_copy (no_faults Copy_ae) ae_file_pathname new_ae_filename
     (locked_ae_disk(new_htc_filename \<mapsto>
        \<lparr>contents = text_write [CR, NL] (concat htc_example), read_only = False\<rparr>)) =
     (Some OSError, locked_ae_disk(new_htc_filename \<mapsto>
        \<lparr>contents = text_write [CR, NL] (concat htc_example), read_only = False\<rparr>)) \<and>
   creating_the_files str_whole [CR, NL] no_faults [] [] locked_ae_disk =
     (Quit, locked_ae_disk(new_htc_filename \<mapsto>
        \<lparr>contents = text_write [CR, NL] (concat htc_example), read_only = False\<rparr>)) \<and>
   shutil_copy ((no_faults(Copy_htc \<mapsto> Broken_after 3)) Copy_htc) htc_file_pathname
       new_htc_filename original_files =
     (Some OSError, original_files(new_htc_filename \<mapsto>
        \<lparr>contents = take 3 (text_write [CR, NL] (concat htc_example)), read_only = False\<rparr>)) \<and>
   creating_the_files str_whole [CR, NL] (no_faults(Copy_htc \<mapsto> Broken_after 3)) [] []
       original_files =
     (Quit, original_files(new_htc_filename \<mapsto>
        \<lparr>contents = take 3 (text_write [CR, NL] (concat htc_example)), read_only = False\<rparr>))"
proof -
  have c1: "shutil_copy (no_faults Copy_htc) htc_file_pathname new_htc_filename locked_htc_disk =
     (Some OSError, locked_htc_disk)"
    using path_names_distinct
    by (simp add: shutil_copy_def locked_htc_disk_def original_files_def)
  have c2: "shutil_copy (no_faults Copy_htc) htc_file_pathname new_htc_filename locked_ae_disk =
     (None, locked_ae_disk(new_htc_filename \<mapsto>
        \<lparr>contents = text_write [CR, NL] (concat htc_example), read_only = False\<rparr>))"
    using path_names_distinct
    by (simp add: shutil_copy_def locked_ae_disk_def original_files_def no_faults_def)
  have c3: "shutil_copy (no_faults Copy_ae) ae_file_pathname new_ae_filename
     (locked_ae_disk(new_htc_filename \<mapsto>
        \<lparr>contents = text_write [CR, NL] (concat htc_example), read_only = False\<rparr>)) =
     (Some OSError, locked_ae_disk(new_htc_filename \<mapsto>
        \<lparr>contents = text_write [CR, NL] (concat htc_example), read_only = False\<rparr>))"
    using path_names_distinct
    by (simp add: shutil_copy_def locked_ae_disk_def original_files_def)
  have c4: "shutil_copy ((no_faults(Copy_htc \<mapsto> Broken_after 3)) Copy_htc) htc_file_pathname
       new_htc_filename original_files =
     (Some OSError, original_files(new_htc_filename \<mapsto>
        \<lparr>contents = take 3 (text_write [CR, NL] (concat htc_example)), read_only = False\<rparr>))"
    using path_names_distinct
    by (simp add: shutil_copy_def original_files_def)
  from copy_failure_quits[where faults = no_faults and d = locked_htc_disk and e = OSError
      and ?d1.0 = locked_htc_disk and str_float = str_whole and linesep = "[CR, NL]"
      and htc_tw = "[]" and working_mat = "[]"] c1
  have q1: "creating_the_files str_whole [CR, NL] no_faults [] [] locked_htc_disk =
     (Quit, locked_htc_disk)"
    by simp
  from copy_failure_quits[where faults = no_faults and d = locked_ae_disk and e = OSError
      and ?d1.0 = "locked_ae_disk(new_htc_filename \<mapsto>
        \<lparr>contents = text_write [CR, NL] (concat htc_example), read_only = False\<rparr>)"
      and ?d2.0 = "locked_ae_disk(new_htc_filename \<mapsto>
        \<lparr>contents = text_write [CR, NL] (concat htc_example), read_only = False\<rparr>)"
      and str_float = str_whole and linesep = "[CR, NL]" and htc_tw = "[]"
      and working_mat = "[]"] c2 c3
  have q2: "creating_the_files str_whole [CR, NL] no_faults [] [] locked_ae_disk =
     (Quit, locked_ae_disk(new_htc_filename \<mapsto>
        \<lparr>contents = text_write [CR, NL] (concat htc_example), read_only = False\<rparr>))"
    by simp
  from copy_failure_quits[where faults = "no_faults(Copy_htc \<mapsto> Broken_after 3)"
      and d = original_files and e = OSError
      and ?d1.0 = "original_files(new_htc_filename \<mapsto>
        \<lparr>contents = take 3 (text_write [CR, NL] (concat htc_example)), read_only = False\<rparr>)"
      and str_float = str_whole and linesep = "[CR, NL]" and htc_tw = "[]"
      and working_mat = "[]"] c4
  have q3: "creating_the_files str_whole [CR, NL] (no_faults(Copy_htc \<mapsto> Broken_after 3)) [] []
       original_files =
     (Quit, original_files(new_htc_filename \<mapsto>
        \<lparr>contents = take 3 (text_write [CR, NL] (concat htc_example)), read_only = False\<rparr>))"
    by simp
  from c1 c2 c3 c4 q1 q2 q3 show ?thesis by (intro conjI)
qed

text \<open>
  The second copy fails on a read-only file of the new \<^verbatim>\<open>ae.dat\<close> name: the run quits, and
  the new \<^verbatim>\<open>.htc\<close> file, which was not on the disk, is on it.
\<close>

theorem copy_failure_counterexample:
  "locked_ae_disk new_htc_filename = None \<and>
   fst (creating_the_files str_whole [CR, NL] no_faults [] [] locked_ae_disk) = Quit \<and>
   snd (creating_the_files str_whole [CR, NL] no_faults [] [] locked_ae_disk) new_htc_filename =
     Some \<lparr>contents = text_write [CR, NL] (concat htc_example), read_only = False\<rparr>"
  using path_names_distinct
  by (simp add: creating_the_files_def shutil_copy_def locked_ae_disk_def original_files_def
      no_faults_def)

end
